theory Spec2Isabelle
  imports Main "HOL-Library.Sublist"
begin

section \<open>Texts\<close>

text \<open>
  A JavaScript string is modelled as a \<open>string\<close> (a list of characters); \<open>length\<close> is the
  source's \<open>.length\<close>. The characters of the model are the 8-bit characters of HOL, read
  as Latin-1, so the texts covered are the ones whose code units lie below 256.
\<close>

definition isTerminal :: "char \<Rightarrow> bool" where
  \<comment> \<open>the character class \<open>[.!?]\<close>\<close>
  "isTerminal c = (c = CHR ''.'' \<or> c = CHR ''!'' \<or> c = CHR ''?'')"

definition isSpace :: "char \<Rightarrow> bool" where
  \<comment> \<open>the character class \<open>\s\<close>, on Latin-1: TAB, LF, VT, FF, CR, space and U+00A0\<close>
  "isSpace c = (of_char c \<in> {9, 10, 11, 12, 13, 32, 160 :: nat})"

section \<open>The chunker (utils/fileProcessing.js)\<close>

text \<open>
  \<open>text.match(/[^.!?]+[.!?]+/g) || []\<close>: the successive leftmost matches of a longest
  non-empty run of non-terminal characters followed by a longest non-empty run of terminal
  characters. No match starts at a terminal character, so the scan steps over it; a run of
  non-terminal characters that reaches the end of the text matches nowhere.
\<close>

function matchSentences :: "string \<Rightarrow> string list" where
  "matchSentences [] = []"
| "matchSentences (c # cs) =
     (if isTerminal c then matchSentences cs
      else if takeWhile isTerminal (dropWhile (\<lambda>x. \<not> isTerminal x) (c # cs)) = [] then []
      else (takeWhile (\<lambda>x. \<not> isTerminal x) (c # cs)
              @ takeWhile isTerminal (dropWhile (\<lambda>x. \<not> isTerminal x) (c # cs)))
           # matchSentences (dropWhile isTerminal (dropWhile (\<lambda>x. \<not> isTerminal x) (c # cs))))"
  by pat_completeness auto
termination
proof (relation "measure length")
  fix c :: char and cs :: string
  assume "\<not> isTerminal c"
  have "length (dropWhile isTerminal (dropWhile (\<lambda>x. \<not> isTerminal x) (c # cs)))
          \<le> length (dropWhile (\<lambda>x. \<not> isTerminal x) (c # cs))"
    by (rule length_dropWhile_le)
  also have "\<dots> = length (dropWhile (\<lambda>x. \<not> isTerminal x) cs)"
    using \<open>\<not> isTerminal c\<close> by simp
  also have "\<dots> \<le> length cs"
    by (rule length_dropWhile_le)
  finally show "(dropWhile isTerminal (dropWhile (\<lambda>x. \<not> isTerminal x) (c # cs)), c # cs)
                  \<in> measure length"
    by simp
qed simp_all

declare matchSentences.simps(2) [simp del]

text \<open>
  \<open>sentence.split(/\s+/)\<close>: the pieces between the longest runs of white space. A text that
  starts (ends) with white space has an empty first (last) piece, and the empty text has
  the one piece \<open>''''\<close>.
\<close>

function splitWs :: "string \<Rightarrow> string list" where
  "splitWs s =
     (if dropWhile (\<lambda>x. \<not> isSpace x) s = [] then [s]
      else takeWhile (\<lambda>x. \<not> isSpace x) s
           # splitWs (dropWhile isSpace (dropWhile (\<lambda>x. \<not> isSpace x) s)))"
  by pat_completeness auto
termination
proof (relation "measure length")
  fix s :: string
  assume ne: "dropWhile (\<lambda>x. \<not> isSpace x) s \<noteq> []"
  then obtain y ys where d: "dropWhile (\<lambda>x. \<not> isSpace x) s = y # ys"
    by (cases "dropWhile (\<lambda>x. \<not> isSpace x) s") auto
  then have "isSpace y"
    using hd_dropWhile [of "\<lambda>x. \<not> isSpace x" s] by simp
  then have "length (dropWhile isSpace (y # ys)) \<le> length ys"
    by (simp add: length_dropWhile_le)
  also have "\<dots> < length (y # ys)" by simp
  also have "\<dots> \<le> length s"
    unfolding d [symmetric] by (rule length_dropWhile_le)
  finally show "(dropWhile isSpace (dropWhile (\<lambda>x. \<not> isSpace x) s), s) \<in> measure length"
    by (simp add: d)
qed simp

declare splitWs.simps [simp del]

text \<open>
  The loop of \<open>splitLongSentence\<close> over the words, with its two variables \<open>chunks\<close> and
  \<open>currentChunk\<close>. The test adds one for the blank even when \<open>currentChunk\<close> is empty.
\<close>

fun wordLoop :: "nat \<Rightarrow> string list \<Rightarrow> string list \<Rightarrow> string \<Rightarrow> string list \<times> string" where
  "wordLoop chunkSize [] chunks currentChunk = (chunks, currentChunk)"
| "wordLoop chunkSize (word # ws) chunks currentChunk =
     (if length (currentChunk @ '' '' @ word) \<le> chunkSize
      then wordLoop chunkSize ws chunks
             (currentChunk @ (if currentChunk \<noteq> [] then '' '' else []) @ word)
      else wordLoop chunkSize ws
             (if currentChunk \<noteq> [] then chunks @ [currentChunk] else chunks) word)"

definition splitLongSentence :: "string \<Rightarrow> nat \<Rightarrow> string list" where
  "splitLongSentence sentence chunkSize =
     (case wordLoop chunkSize (splitWs sentence) [] [] of
        (chunks, currentChunk) \<Rightarrow>
          if currentChunk \<noteq> [] then chunks @ [currentChunk] else chunks)"

text \<open>
  In \<open>splitIntoChunks\<close> the variable \<open>currentChunk\<close> is a string, or \<open>undefined\<close> after
  \<open>sentenceChunks[sentenceChunks.length - 1]\<close> on an empty array: \<open>None\<close> is \<open>undefined\<close>.
  String concatenation turns \<open>undefined\<close> into the text \<open>undefined\<close>, and \<open>undefined\<close> and
  the empty string are the falsy values.
\<close>

definition jsConcat :: "string option \<Rightarrow> string \<Rightarrow> string" where
  "jsConcat cur s = (case cur of None \<Rightarrow> ''undefined'' @ s | Some c \<Rightarrow> c @ s)"

definition pushCurrent :: "string list \<Rightarrow> string option \<Rightarrow> string list" where
  \<comment> \<open>\<open>if (currentChunk) chunks.push(currentChunk)\<close>\<close>
  "pushCurrent chunks cur = (case cur of None \<Rightarrow> chunks | Some c \<Rightarrow> if c \<noteq> [] then chunks @ [c] else chunks)"

definition lastElement :: "string list \<Rightarrow> string option" where
  \<comment> \<open>\<open>xs[xs.length - 1]\<close>\<close>
  "lastElement xs = (if xs = [] then None else Some (last xs))"

fun sentenceLoop :: "nat \<Rightarrow> string list \<Rightarrow> string list \<Rightarrow> string option
                      \<Rightarrow> string list \<times> string option" where
  "sentenceLoop chunkSize [] chunks currentChunk = (chunks, currentChunk)"
| "sentenceLoop chunkSize (sentence # ss) chunks currentChunk =
     (if length (jsConcat currentChunk sentence) \<le> chunkSize
      then sentenceLoop chunkSize ss chunks (Some (jsConcat currentChunk sentence))
      else if length sentence > chunkSize
      then sentenceLoop chunkSize ss
             (pushCurrent chunks currentChunk @ butlast (splitLongSentence sentence chunkSize))
             (lastElement (splitLongSentence sentence chunkSize))
      else sentenceLoop chunkSize ss (pushCurrent chunks currentChunk) (Some sentence))"

text \<open>
  The limit \<open>chunkSize\<close> is a natural number; the orchestrator always passes 1000.
\<close>

definition splitIntoChunks :: "string \<Rightarrow> nat \<Rightarrow> string list" where
  "splitIntoChunks text chunkSize =
     (case sentenceLoop chunkSize (matchSentences text) [] (Some []) of
        (chunks, currentChunk) \<Rightarrow> pushCurrent chunks currentChunk)"

section \<open>Errors and asynchronous results\<close>

text \<open>
  The errors of the source are JavaScript \<open>Error\<close> objects carrying a message, the
  \<open>TypeError\<close> that the runtime raises when a member that is \<open>undefined\<close> is called, and the
  validation error that the store's schema raises. An awaited operation either resolves
  with a value, rejects with an error, or, for a call out of the process (a parser, a
  provider, the file system), never settles.
\<close>

datatype error = Error string | TypeError string | ValidationError string

fun message :: "error \<Rightarrow> string" where
  "message (Error m) = m"
| "message (TypeError m) = m"
| "message (ValidationError p) = ''Translation validation failed: '' @ p"

datatype 'a outcome = Resolved 'a | Rejected error | Pending

section \<open>The job record (models/Translation.js)\<close>

datatype status = Processing | Completed | Failed | Canceled

text \<open>
  The fields of the schema, without the two time stamps. \<open>None\<close> is a field that was never
  set. \<open>userId\<close> holds the owner's ObjectId as \<open>toString\<close> prints it.
\<close>

record translation =
  userId :: string
  originalFileName :: string
  fileFormat :: string
  sourceLanguage :: string
  targetLanguage :: string
  service :: string
  status :: status
  progress :: nat
  totalChunks :: nat
  processedChunks :: nat
  translatedFilePath :: "string option"
  translatedFileName :: "string option"
  errorMessage :: "string option"

record job =
  jobUserId :: string
  jobSourceLanguage :: string
  jobTargetLanguage :: string
  jobFilePath :: string
  jobFileName :: string
  jobFileFormat :: string
  jobService :: string

text \<open>
  What the code takes from outside the repository: the store's identifiers, the parsers and
  writers of the document formats, the providers, the file system, Node's \<open>path\<close> module,
  and the arithmetic of the runtime. \<open>castObjectId env s\<close> is the ObjectId that the store
  casts the string \<open>s\<close> to, as \<open>toString\<close> prints it, and \<open>None\<close> when the cast fails;
  \<open>newId env\<close> is the identifier that the store gives the next record, printed likewise.
  \<open>pdfParse\<close> stands for reading the file and parsing it, \<open>epubParse\<close> for the promise that
  \<open>extractFromEPUB\<close> builds on the events of the EPUB parser. \<open>roundPercent env p t\<close> stands
  for \<open>Math.round((p / t) * 100)\<close> as the runtime computes it in double precision.
\<close>

record env =
  castObjectId :: "string \<Rightarrow> string option"
  newId :: string
  pdfParse :: "string \<Rightarrow> string outcome"
  epubParse :: "string \<Rightarrow> string outcome"
  mammothExtract :: "string \<Rightarrow> string outcome"
  readFile :: "string \<Rightarrow> string outcome"
  provider :: "string \<Rightarrow> string \<Rightarrow> string \<Rightarrow> string \<Rightarrow> string outcome"
  mkdir :: "string \<Rightarrow> unit outcome"
  rmdir :: "string \<Rightarrow> unit outcome"
  writeFile :: "string \<Rightarrow> string \<Rightarrow> unit outcome"
  pdfWrite :: "string \<Rightarrow> string \<Rightarrow> unit outcome"
  epubWrite :: "string \<Rightarrow> string \<Rightarrow> unit outcome"
  docxWrite :: "string \<Rightarrow> string \<Rightarrow> unit outcome"
  pathName :: "string \<Rightarrow> string"
  pathExt :: "string \<Rightarrow> string"
  pathJoin :: "string \<Rightarrow> string \<Rightarrow> string"
  pathDirname :: "string \<Rightarrow> string"
  roundPercent :: "nat \<Rightarrow> nat \<Rightarrow> nat"

text \<open>
  The store holds the records by identifier. \<open>writes\<close> lists every record state that was
  persisted, oldest first, \<open>submitted\<close> the chunks handed to a provider, and \<open>files\<close> the
  output files with the text they were written from. Operations of the store itself are
  taken to succeed.
\<close>

record world =
  db :: "string \<rightharpoonup> translation"
  writes :: "(string \<times> translation) list"
  submitted :: "string list"
  files :: "string \<rightharpoonup> string"

definition emptyWorld :: world where
  "emptyWorld = \<lparr>db = Map.empty, writes = [], submitted = [], files = Map.empty\<rparr>"

definition fileFormats :: "string list" where
  "fileFormats = [''pdf'', ''epub'', ''txt'', ''docx'']"

definition services :: "string list" where
  "services = [''deepl'', ''microsoft'', ''amazon'', ''argos'', ''libre'']"

definition validateNew :: "env \<Rightarrow> job \<Rightarrow> error option" where
  \<comment> \<open>the cast of \<open>userId\<close> and the \<open>required\<close> and \<open>enum\<close> validators of the schema, in the
      order of its paths\<close>
  "validateNew env j =
     (if castObjectId env (jobUserId j) = None then Some (ValidationError ''userId'')
      else if jobFileName j = [] then Some (ValidationError ''originalFileName'')
      else if jobFileFormat j \<notin> set fileFormats then Some (ValidationError ''fileFormat'')
      else if jobSourceLanguage j = [] then Some (ValidationError ''sourceLanguage'')
      else if jobTargetLanguage j = [] then Some (ValidationError ''targetLanguage'')
      else if jobService j \<notin> set services then Some (ValidationError ''service'')
      else None)"

definition newRecord :: "env \<Rightarrow> job \<Rightarrow> translation" where
  \<comment> \<open>the document that \<open>Translation.create\<close> builds, with the schema's defaults\<close>
  "newRecord env j =
     \<lparr>userId = (case castObjectId env (jobUserId j) of Some u \<Rightarrow> u | None \<Rightarrow> []),
      originalFileName = jobFileName j, fileFormat = jobFileFormat j,
      sourceLanguage = jobSourceLanguage j, targetLanguage = jobTargetLanguage j,
      service = jobService j, status = Processing, progress = 0, totalChunks = 0,
      processedChunks = 0, translatedFilePath = None, translatedFileName = None,
      errorMessage = None\<rparr>"

definition create :: "env \<Rightarrow> job \<Rightarrow> world \<Rightarrow> string outcome \<times> world" where
  \<comment> \<open>\<open>Translation.create\<close>; it resolves with the identifier of the stored record\<close>
  "create env j w =
     (case validateNew env j of
        Some e \<Rightarrow> (Rejected e, w)
      | None \<Rightarrow>
          (Resolved (newId env),
           w\<lparr>db := (db w)(newId env \<mapsto> newRecord env j),
             writes := writes w @ [(newId env, newRecord env j)]\<rparr>))"

definition findByIdAndUpdate :: "string \<Rightarrow> (translation \<Rightarrow> translation) \<Rightarrow> world \<Rightarrow> world" where
  \<comment> \<open>sets the given fields of the record; no record, no effect\<close>
  "findByIdAndUpdate i upd w =
     (case db w i of
        None \<Rightarrow> w
      | Some t \<Rightarrow> w\<lparr>db := (db w)(i \<mapsto> upd t), writes := writes w @ [(i, upd t)]\<rparr>)"

subsection \<open>The methods of the schema\<close>

text \<open>
  The schema declares three methods. No code of the repository calls them.
\<close>

definition updateProgress :: "env \<Rightarrow> nat \<Rightarrow> translation \<Rightarrow> translation" where
  "updateProgress env n t =
     (if totalChunks t > 0
      then t\<lparr>processedChunks := n, progress := roundPercent env n (totalChunks t)\<rparr>
      else t)"

definition markCompleted :: "string \<Rightarrow> string \<Rightarrow> translation \<Rightarrow> translation" where
  "markCompleted path name t =
     t\<lparr>status := Completed, progress := 100, translatedFilePath := Some path,
       translatedFileName := Some name\<rparr>"

definition markFailed :: "string \<Rightarrow> translation \<Rightarrow> translation" where
  "markFailed msg t = t\<lparr>status := Failed, errorMessage := Some msg\<rparr>"

section \<open>The requests of the controller (controllers/translationController.js)\<close>

text \<open>
  \<open>cancelTranslation\<close> and \<open>deleteTranslation\<close>, each with the HTTP status it answers.
  \<open>findById\<close> throws for an identifier that is not castable to an ObjectId, and the
  handler's \<open>catch\<close> answers 500.
\<close>

definition cancelTranslation :: "env \<Rightarrow> string \<Rightarrow> string \<Rightarrow> world \<Rightarrow> nat \<times> world" where
  "cancelTranslation env i uid w =
     (case castObjectId env i of
        None \<Rightarrow> (500, w)
      | Some k \<Rightarrow>
     (case db w k of
        None \<Rightarrow> (404, w)
      | Some t \<Rightarrow>
          if userId t \<noteq> uid then (403, w)
          else if status t = Completed \<or> status t = Canceled then (400, w)
          else (200, w\<lparr>db := (db w)(k \<mapsto> t\<lparr>status := Canceled\<rparr>),
                       writes := writes w @ [(k, t\<lparr>status := Canceled\<rparr>)]\<rparr>)))"

definition deleteTranslation :: "env \<Rightarrow> string \<Rightarrow> string \<Rightarrow> world \<Rightarrow> nat \<times> world" where
  "deleteTranslation env i uid w =
     (case castObjectId env i of
        None \<Rightarrow> (500, w)
      | Some k \<Rightarrow>
     (case db w k of
        None \<Rightarrow> (404, w)
      | Some t \<Rightarrow>
          if userId t \<noteq> uid then (403, w)
          else (200, w\<lparr>db := (db w)(k := None),
                       files := (case translatedFilePath t of
                                   None \<Rightarrow> files w
                                 | Some p \<Rightarrow> (files w)(p := None))\<rparr>)))"

datatype request = Cancel string string | Delete string string

fun handle :: "env \<Rightarrow> request \<Rightarrow> world \<Rightarrow> world" where
  "handle env (Cancel i uid) w = snd (cancelTranslation env i uid w)"
| "handle env (Delete i uid) w = snd (deleteTranslation env i uid w)"

definition handleAll :: "env \<Rightarrow> request list \<Rightarrow> world \<Rightarrow> world" where
  "handleAll env rs w = fold (handle env) rs w"

section \<open>Extraction and reconstruction (utils/fileProcessing.js)\<close>

definition toLowerChar :: "char \<Rightarrow> char" where
  \<comment> \<open>the upper-case letters of Latin-1 are A to Z and U+00C0 to U+00DE without U+00D7\<close>
  "toLowerChar c =
     (let n = of_char c :: nat
      in if (65 \<le> n \<and> n \<le> 90) \<or> (192 \<le> n \<and> n \<le> 222 \<and> n \<noteq> 215)
         then char_of (n + 32) else c)"

definition toLowerCase :: "string \<Rightarrow> string" where
  "toLowerCase s = map toLowerChar s"

definition wrapError :: "string \<Rightarrow> 'a outcome \<Rightarrow> 'a outcome" where
  \<comment> \<open>\<open>catch (error) { throw new Error(pre + error.message) }\<close>\<close>
  "wrapError pre r =
     (case r of Rejected e \<Rightarrow> Rejected (Error (pre @ message e)) | _ \<Rightarrow> r)"

text \<open>
  The functions of the module are members of one object literal and reach one another
  through \<open>this\<close>. Called as a member of the module, \<open>this\<close> is the module; called as a plain
  function, as by a caller that took the function out of the module by destructuring,
  \<open>this\<close> is the global object, which has none of the members, and the call of
  \<open>this.name(...)\<close> raises a \<open>TypeError\<close>.
\<close>

datatype receiver = Module | Global

definition callThis :: "receiver \<Rightarrow> string \<Rightarrow> 'a outcome \<Rightarrow> 'a outcome" where
  \<comment> \<open>\<open>this.name(...)\<close>, where the member of the module gives \<open>r\<close>\<close>
  "callThis recv name r =
     (case recv of
        Module \<Rightarrow> r
      | Global \<Rightarrow> Rejected (TypeError (''this.'' @ name @ '' is not a function'')))"

definition extractFromPDF :: "env \<Rightarrow> string \<Rightarrow> string outcome" where
  "extractFromPDF env filePath = wrapError ''PDF extraction failed: '' (pdfParse env filePath)"

definition extractFromEPUB :: "env \<Rightarrow> string \<Rightarrow> string outcome" where
  "extractFromEPUB env filePath = epubParse env filePath"

definition extractFromDOCX :: "env \<Rightarrow> string \<Rightarrow> string outcome" where
  "extractFromDOCX env filePath =
     wrapError ''DOCX extraction failed: '' (mammothExtract env filePath)"

definition extractFromTXT :: "env \<Rightarrow> string \<Rightarrow> string outcome" where
  "extractFromTXT env filePath = wrapError ''TXT extraction failed: '' (readFile env filePath)"

definition extractText :: "receiver \<Rightarrow> env \<Rightarrow> string \<Rightarrow> string \<Rightarrow> string outcome" where
  "extractText recv env filePath fmt =
     wrapError ''Failed to extract text: ''
       (if toLowerCase fmt = ''pdf''
        then callThis recv ''extractFromPDF'' (extractFromPDF env filePath)
        else if toLowerCase fmt = ''epub''
        then callThis recv ''extractFromEPUB'' (extractFromEPUB env filePath)
        else if toLowerCase fmt = ''docx''
        then callThis recv ''extractFromDOCX'' (extractFromDOCX env filePath)
        else if toLowerCase fmt = ''txt''
        then callThis recv ''extractFromTXT'' (extractFromTXT env filePath)
        else Rejected (Error (''Unsupported file format: '' @ fmt)))"

text \<open>
  \<open>splitIntoChunks\<close> called as a plain function: it is the chunker above until a sentence is
  longer than the limit, where \<open>this.splitLongSentence\<close> is called and the \<open>TypeError\<close> ends
  the loop. \<open>currentChunk\<close> is always a string here.
\<close>

fun sentenceLoopGlobal ::
    "nat \<Rightarrow> string list \<Rightarrow> string list \<Rightarrow> string \<Rightarrow> (string list \<times> string) outcome" where
  "sentenceLoopGlobal chunkSize [] chunks currentChunk = Resolved (chunks, currentChunk)"
| "sentenceLoopGlobal chunkSize (sentence # ss) chunks currentChunk =
     (if length (currentChunk @ sentence) \<le> chunkSize
      then sentenceLoopGlobal chunkSize ss chunks (currentChunk @ sentence)
      else if length sentence > chunkSize
      then Rejected (TypeError ''this.splitLongSentence is not a function'')
      else sentenceLoopGlobal chunkSize ss
             (if currentChunk \<noteq> [] then chunks @ [currentChunk] else chunks) sentence)"

definition splitIntoChunksGlobal :: "string \<Rightarrow> nat \<Rightarrow> string list outcome" where
  "splitIntoChunksGlobal body chunkSize =
     (case sentenceLoopGlobal chunkSize (matchSentences body) [] [] of
        Resolved (chunks, currentChunk) \<Rightarrow>
          Resolved (if currentChunk \<noteq> [] then chunks @ [currentChunk] else chunks)
      | Rejected e \<Rightarrow> Rejected e
      | Pending \<Rightarrow> Pending)"

text \<open>
  The three writers of \<open>convertToTargetFormat\<close>, each on the library that builds the file.
\<close>

definition convertToPDF :: "env \<Rightarrow> string \<Rightarrow> string \<Rightarrow> unit outcome" where
  "convertToPDF env body outputPath =
     wrapError ''PDF creation error: '' (pdfWrite env body outputPath)"

definition convertToEPUB :: "env \<Rightarrow> string \<Rightarrow> string \<Rightarrow> unit outcome" where
  "convertToEPUB env body outputPath =
     wrapError ''EPUB creation error: '' (epubWrite env body outputPath)"

definition convertToDOCX :: "env \<Rightarrow> string \<Rightarrow> string \<Rightarrow> unit outcome" where
  "convertToDOCX env body outputPath = docxWrite env body outputPath"

definition convertToTargetFormat ::
    "receiver \<Rightarrow> env \<Rightarrow> string \<Rightarrow> string \<Rightarrow> string \<Rightarrow> world \<Rightarrow> string outcome \<times> world" where
  "convertToTargetFormat recv env body outputPath fmt w =
     (case wrapError ''Format conversion failed: ''
             (case mkdir env (pathDirname env outputPath) of
                Rejected e \<Rightarrow> Rejected e
              | Pending \<Rightarrow> Pending
              | Resolved _ \<Rightarrow>
                  if toLowerCase fmt = ''txt'' then writeFile env outputPath body
                  else if toLowerCase fmt = ''pdf''
                  then callThis recv ''convertToPDF'' (convertToPDF env body outputPath)
                  else if toLowerCase fmt = ''epub''
                  then callThis recv ''convertToEPUB'' (convertToEPUB env body outputPath)
                  else if toLowerCase fmt = ''docx''
                  then callThis recv ''convertToDOCX'' (convertToDOCX env body outputPath)
                  else Rejected (Error (''Unsupported output format: '' @ fmt))) of
        Resolved _ \<Rightarrow> (Resolved outputPath, w\<lparr>files := (files w)(outputPath \<mapsto> body)\<rparr>)
      | Rejected e \<Rightarrow> (Rejected e, w)
      | Pending \<Rightarrow> (Pending, w))"

section \<open>The orchestrator (services/translationService.js)\<close>

definition translateWithService ::
    "env \<Rightarrow> string \<Rightarrow> string \<Rightarrow> string \<Rightarrow> string \<Rightarrow> string outcome" where
  "translateWithService env chunk src tgt svc =
     (if svc \<in> set services then provider env svc chunk src tgt
      else Rejected (Error (''Unsupported translation service: '' @ svc)))"

text \<open>
  The run awaits the store, the file system and the providers, and the controller handles
  requests meanwhile: \<open>sched 0\<close> are the requests handled while the run awaits \<open>fs.mkdir\<close>,
  after the record is created; \<open>sched (i + 1)\<close> the ones handled before chunk \<open>i\<close> (counted
  from 0) is handed to the provider; \<open>sched (n + 1)\<close>, for \<open>n\<close> chunks, the ones handled
  before the reconstruction.

  The loop over the chunks: \<open>i\<close> chunks are translated and committed when the loop takes the
  next one.
\<close>

fun translateLoop ::
    "env \<Rightarrow> (nat \<Rightarrow> request list) \<Rightarrow> job \<Rightarrow> string \<Rightarrow> nat \<Rightarrow> nat \<Rightarrow> string list
       \<Rightarrow> string list \<Rightarrow> world \<Rightarrow> string list outcome \<times> world" where
  "translateLoop env sched j jobId nChunks i [] translatedChunks w = (Resolved translatedChunks, w)"
| "translateLoop env sched j jobId nChunks i (chunk # chunks) translatedChunks w =
     (let w1 = handleAll env (sched (i + 1)) w;
          w2 = w1\<lparr>submitted := submitted w1 @ [chunk]\<rparr>
      in case translateWithService env chunk (jobSourceLanguage j) (jobTargetLanguage j)
                (jobService j) of
           Rejected e \<Rightarrow> (Rejected e, w2)
         | Pending \<Rightarrow> (Pending, w2)
         | Resolved translatedText \<Rightarrow>
             translateLoop env sched j jobId nChunks (i + 1) chunks
               (translatedChunks @ [translatedText])
               (findByIdAndUpdate jobId
                  (\<lambda>t. t\<lparr>processedChunks := i + 1,
                          progress := roundPercent env (i + 1) nChunks\<rparr>) w2))"

record result =
  translationId :: string
  resultStatus :: string
  downloadUrl :: string
  resultFileName :: string

definition outputFileName :: "env \<Rightarrow> job \<Rightarrow> string" where
  "outputFileName env j =
     pathName env (jobFileName j) @ ''_'' @ jobTargetLanguage j @ pathExt env (jobFileName j)"

definition outputPath :: "env \<Rightarrow> job \<Rightarrow> string" where
  "outputPath env j = pathJoin env ''../../translations/completed'' (outputFileName env j)"

definition workDir :: "env \<Rightarrow> string \<Rightarrow> string" where
  "workDir env jobId = pathJoin env ''../../translations/temp'' jobId"

text \<open>
  \<open>processTranslation\<close>. The service takes \<open>extractText\<close>, \<open>splitIntoChunks\<close> and
  \<open>convertToTargetFormat\<close> out of the module by destructuring and calls them as plain
  functions, so their receiver is \<open>Global\<close>. Its \<open>catch\<close> logs the error and throws it
  again, so a rejection of any step is the rejection of the run, with the world as that
  step left it.
\<close>

definition processTranslation ::
    "env \<Rightarrow> (nat \<Rightarrow> request list) \<Rightarrow> job \<Rightarrow> world \<Rightarrow> result outcome \<times> world" where
  "processTranslation env sched j w =
     (case create env j w of
        (Rejected e, w0) \<Rightarrow> (Rejected e, w0)
      | (Pending, w0) \<Rightarrow> (Pending, w0)
      | (Resolved jobId, w0) \<Rightarrow>
     (let w1 = handleAll env (sched 0) w0
      in case mkdir env (workDir env jobId) of
        Rejected e \<Rightarrow> (Rejected e, w1)
      | Pending \<Rightarrow> (Pending, w1)
      | Resolved _ \<Rightarrow>
     (case extractText Global env (jobFilePath j) (jobFileFormat j) of
        Rejected e \<Rightarrow> (Rejected e, w1)
      | Pending \<Rightarrow> (Pending, w1)
      | Resolved extractedText \<Rightarrow>
     (case splitIntoChunksGlobal extractedText 1000 of
        Rejected e \<Rightarrow> (Rejected e, w1)
      | Pending \<Rightarrow> (Pending, w1)
      | Resolved chunks \<Rightarrow>
     (let w2 = findByIdAndUpdate jobId
                 (\<lambda>t. t\<lparr>totalChunks := length chunks, processedChunks := 0\<rparr>) w1
      in case translateLoop env sched j jobId (length chunks) 0 chunks [] w2 of
        (Rejected e, w3) \<Rightarrow> (Rejected e, w3)
      | (Pending, w3) \<Rightarrow> (Pending, w3)
      | (Resolved translatedChunks, w3) \<Rightarrow>
     (case convertToTargetFormat Global env (concat translatedChunks) (outputPath env j)
             (jobFileFormat j) (handleAll env (sched (length chunks + 1)) w3) of
        (Rejected e, w4) \<Rightarrow> (Rejected e, w4)
      | (Pending, w4) \<Rightarrow> (Pending, w4)
      | (Resolved _, w4) \<Rightarrow>
     (let w5 = findByIdAndUpdate jobId
                 (\<lambda>t. t\<lparr>status := Completed, progress := 100,
                         translatedFilePath := Some (outputPath env j),
                         translatedFileName := Some (outputFileName env j)\<rparr>) w4
      in case rmdir env (workDir env jobId) of
        Rejected e \<Rightarrow> (Rejected e, w5)
      | Pending \<Rightarrow> (Pending, w5)
      | Resolved _ \<Rightarrow>
          (Resolved \<lparr>translationId = jobId, resultStatus = ''completed'',
                     downloadUrl = ''/api/translations/'' @ jobId @ ''/download'',
                     resultFileName = outputFileName env j\<rparr>, w5))))))))"

section \<open>The invariants of the job record\<close>

text \<open>
  What the data model asks of one persisted state of a record: the percentage agrees with
  the two counters once chunks are counted, it is 0 while no chunk is counted, and the
  counter of processed chunks stays within the total.
\<close>

definition progressInvariant :: "env \<Rightarrow> translation \<Rightarrow> bool" where
  "progressInvariant env t =
     ((totalChunks t > 0 \<longrightarrow> progress t = roundPercent env (processedChunks t) (totalChunks t)) \<and>
      (totalChunks t = 0 \<longrightarrow> progress t = 0) \<and>
      processedChunks t \<le> totalChunks t)"

definition updatesOf :: "string \<Rightarrow> world \<Rightarrow> translation list" where
  \<comment> \<open>the persisted states of one record, oldest first\<close>
  "updatesOf k w = map snd (filter (\<lambda>(i, t). i = k) (writes w))"

text \<open>
  The state machine of the status: a status stays, or \<open>processing\<close> is left for one of the
  three terminal states.
\<close>

definition forward :: "status \<Rightarrow> status \<Rightarrow> bool" where
  "forward s s' = (s' = s \<or> (s = Processing \<and> (s' = Completed \<or> s' = Failed \<or> s' = Canceled)))"

text \<open>
  A record as \<open>Translation.create\<close> stored it, but for its status, which may be \<open>canceled\<close>.
\<close>

definition asCreated :: "translation \<Rightarrow> bool" where
  "asCreated t =
     ((status t = Processing \<or> status t = Canceled) \<and> progress t = 0 \<and> totalChunks t = 0 \<and>
      processedChunks t = 0 \<and> translatedFilePath t = None \<and> translatedFileName t = None \<and>
      errorMessage t = None)"

definition worldInvariant :: "world \<Rightarrow> bool" where
  "worldInvariant w =
     ((\<forall>k t. db w k = Some t \<longrightarrow> asCreated t) \<and> list_all (\<lambda>(k, t). asCreated t) (writes w) \<and>
      submitted w = [] \<and> files w = Map.empty)"

text \<open>
  The operations that change the store: a request of the controller, and a run of the
  orchestrator together with the requests handled during it. A run is given an identifier
  that the store does not hold.
\<close>

datatype operation = Request env request | Run env "nat \<Rightarrow> request list" job

fun perform :: "operation \<Rightarrow> world \<Rightarrow> world" where
  "perform (Request env rq) w = handle env rq w"
| "perform (Run env sched j) w = snd (processTranslation env sched j w)"

fun admissible :: "operation \<Rightarrow> world \<Rightarrow> bool" where
  "admissible (Request env rq) w = True"
| "admissible (Run env sched j) w = (db w (newId env) = None)"

text \<open>
  The states of the store that the code can bring about from the empty store.
\<close>

inductive reachable :: "world \<Rightarrow> bool" where
  initial: "reachable emptyWorld"
| step: "reachable w \<Longrightarrow> admissible opn w \<Longrightarrow> reachable (perform opn w)"

text \<open>
  The error with which \<open>extractText\<close> rejects when it is called as a plain function.
\<close>

definition extractTextError :: "string \<Rightarrow> error" where
  "extractTextError fmt =
     Error (''Failed to extract text: '' @
       (if toLowerCase fmt = ''pdf'' then ''this.extractFromPDF is not a function''
        else if toLowerCase fmt = ''epub'' then ''this.extractFromEPUB is not a function''
        else if toLowerCase fmt = ''docx'' then ''this.extractFromDOCX is not a function''
        else if toLowerCase fmt = ''txt'' then ''this.extractFromTXT is not a function''
        else ''Unsupported file format: '' @ fmt))"

section \<open>Sample inputs\<close>

text \<open>
  Two identifiers in the 24 hexadecimal digits that every ObjectId prints as. The sample
  environment is any environment \<open>base\<close> in which these are cast to themselves, the next
  record gets the second one, and \<open>fs.mkdir\<close> succeeds.
\<close>

definition sampleUser :: string where
  "sampleUser = ''507f1f77bcf86cd799439011''"

definition sampleId :: string where
  "sampleId = ''64a7b2f29c1d4e0012ab34cd''"

definition sampleEnv :: "env \<Rightarrow> env" where
  "sampleEnv base =
     base\<lparr>castObjectId := (\<lambda>s. if s = sampleUser \<or> s = sampleId then Some s
                               else castObjectId base s),
          newId := sampleId,
          mkdir := (\<lambda>p. Resolved ())\<rparr>"

definition sampleJob :: "string \<Rightarrow> string \<Rightarrow> job" where
  "sampleJob fmt svc =
     \<lparr>jobUserId = sampleUser, jobSourceLanguage = ''en'', jobTargetLanguage = ''es'',
      jobFilePath = ''uploads/book.'' @ fmt, jobFileName = ''book.'' @ fmt,
      jobFileFormat = fmt, jobService = svc\<rparr>"

text \<open>
  The owner asks to cancel the sample job while the run awaits \<open>fs.mkdir\<close>.
\<close>

definition sampleCancel :: "nat \<Rightarrow> request list" where
  "sampleCancel i = (if i = 0 then [Cancel sampleId sampleUser] else [])"

section \<open>The job queue (services/queueService.js)\<close>

text \<open>
  \<open>defaultJobOptions\<close> of the queue: three attempts, exponential backoff with a delay of
  1000 ms.
\<close>

datatype backoffType = Fixed | Exponential

record backoffOptions =
  backoffType :: backoffType
  delay :: nat

record jobOptions =
  attempts :: nat
  backoff :: backoffOptions

definition defaultJobOptions :: jobOptions where
  "defaultJobOptions = \<lparr>attempts = 3, backoff = \<lparr>backoffType = Exponential, delay = 1000\<rparr>\<rparr>"

text \<open>
  The processor hands the job's data to \<open>processTranslation\<close>, called as a member of the
  service, returns its result and throws again whatever it throws.
\<close>

definition processor ::
    "env \<Rightarrow> (nat \<Rightarrow> request list) \<Rightarrow> job \<Rightarrow> world \<Rightarrow> result outcome \<times> world" where
  "processor env sched j w = processTranslation env sched j w"

text \<open>
  Modelled from the spec: the error classes, which the code does not have (it throws
  \<open>Error\<close> objects that carry a message only). The taxonomy of section 7 has
  UnsupportedFormat (permanent, no retry), ExtractionFailed (permanent), ProviderAuthFailed
  (permanent), ProviderQuotaExceeded (retryable with backoff), ProviderRateLimited
  (retryable with backoff), ProviderUnavailable (retryable), ProviderBadRequest (permanent)
  and ReconstructionFailed (permanent).
\<close>

datatype errorClass =
    UnsupportedFormat | ExtractionFailed | ProviderAuthFailed | ProviderQuotaExceeded
  | ProviderRateLimited | ProviderUnavailable | ProviderBadRequest | ReconstructionFailed

fun permanent :: "errorClass \<Rightarrow> bool" where
  "permanent UnsupportedFormat = True"
| "permanent ExtractionFailed = True"
| "permanent ProviderAuthFailed = True"
| "permanent ProviderQuotaExceeded = False"
| "permanent ProviderRateLimited = False"
| "permanent ProviderUnavailable = False"
| "permanent ProviderBadRequest = True"
| "permanent ReconstructionFailed = True"

datatype 'a jobState = JobCompleted 'a | JobFailed error | JobActive

text \<open>
  Modelled from the spec: the retry loop of the job queue, which is the queue library's
  and not under src/, and the classification of the errors, which the code does not have.
  Section 4.5: "a job whose Orchestrator run throws is retried up to a fixed attempt count
  with exponential backoff between attempts; after the final attempt it is marked failed
  and not retried again automatically." Section 7: "permanent errors abort the job
  immediately and set status = failed with the reason; retryable errors are retried by the
  Job Queue's backoff policy up to its attempt cap, after which they become permanent for
  that job."

  \<open>run k\<close> is the outcome of attempt \<open>k\<close>, counted from 0, and \<open>classify\<close> gives the class of
  an error. The result is the final state of the queue job, the number of attempts made,
  and the waits between the attempts: each wait is the backoff of the job's options
  together with the number of attempts failed so far, from which the queue computes the
  time. A run that never settles leaves the job active.
\<close>

function runJob ::
    "jobOptions \<Rightarrow> (error \<Rightarrow> errorClass) \<Rightarrow> (nat \<Rightarrow> 'a outcome) \<Rightarrow> nat \<Rightarrow> (backoffOptions \<times> nat) list
       \<Rightarrow> 'a jobState \<times> nat \<times> (backoffOptions \<times> nat) list" where
  "runJob opts classify run attemptsMade waits =
     (case run attemptsMade of
        Resolved r \<Rightarrow> (JobCompleted r, attemptsMade + 1, waits)
      | Pending \<Rightarrow> (JobActive, attemptsMade + 1, waits)
      | Rejected e \<Rightarrow>
          if permanent (classify e) then (JobFailed e, attemptsMade + 1, waits)
          else if attemptsMade + 1 < attempts opts
          then runJob opts classify run (attemptsMade + 1)
                 (waits @ [(backoff opts, attemptsMade + 1)])
          else (JobFailed e, attemptsMade + 1, waits))"
  by pat_completeness auto
termination
  by (relation "measure (\<lambda>(opts, classify, run, attemptsMade, waits). attempts opts - attemptsMade)")
     auto

declare runJob.simps [simp del]

text \<open>
  A classification for the sample runs: the errors of \<open>extractText\<close> are extraction
  failures, and every other error counts as an unavailable provider.
\<close>

definition sampleClassify :: "error \<Rightarrow> errorClass" where
  "sampleClassify e =
     (if take 24 (message e) = ''Failed to extract text: '' then ExtractionFailed
      else ProviderUnavailable)"

text \<open>
  An error of a class that is retried. No run of the code throws it.
\<close>

definition sampleRetryable :: error where
  "sampleRetryable = Error ''service unavailable''"

section \<open>Language codes of the provider adapters (services/*.js)\<close>

text \<open>
  Each adapter looks the code up in an object literal, \<open>languageMap[code] || fallback\<close>. A
  property read on an object literal also finds the members that every object inherits
  from \<open>Object.prototype\<close>, which are functions or objects and so truthy: \<open>JInherited\<close> is
  such a value, and \<open>None\<close> is \<open>undefined\<close>. The empty string is falsy.
\<close>

datatype jsval = JString string | JInherited string

definition objectPrototypeNames :: "string list" where
  "objectPrototypeNames =
     [''constructor'', ''__defineGetter__'', ''__defineSetter__'', ''hasOwnProperty'',
      ''__lookupGetter__'', ''__lookupSetter__'', ''isPrototypeOf'', ''propertyIsEnumerable'',
      ''toString'', ''valueOf'', ''__proto__'', ''toLocaleString'']"

definition getProperty :: "(string \<times> string) list \<Rightarrow> string \<Rightarrow> jsval option" where
  "getProperty languageMap key =
     (case map_of languageMap key of
        Some v \<Rightarrow> Some (JString v)
      | None \<Rightarrow> if key \<in> set objectPrototypeNames then Some (JInherited key) else None)"

definition orElse :: "jsval option \<Rightarrow> jsval \<Rightarrow> jsval" where
  \<comment> \<open>\<open>x || y\<close>\<close>
  "orElse x y =
     (case x of
        None \<Rightarrow> y
      | Some (JString s) \<Rightarrow> if s = [] then y else JString s
      | Some (JInherited k) \<Rightarrow> JInherited k)"

text \<open>
  \<open>toUpperCase\<close> on Latin-1. The upper-case form of a Latin-1 text may leave Latin-1, so the
  result is given by its code points: the letters a to z and U+00E0 to U+00FE without U+00F7
  move down by 32, U+00DF becomes \<open>SS\<close>, U+00B5 becomes U+039C and U+00FF becomes U+0178.
\<close>

definition codePoints :: "string \<Rightarrow> nat list" where
  "codePoints s = map of_char s"

definition toUpperChar :: "char \<Rightarrow> nat list" where
  "toUpperChar c =
     (let n = of_char c :: nat
      in if (97 \<le> n \<and> n \<le> 122) \<or> (224 \<le> n \<and> n \<le> 254 \<and> n \<noteq> 247) then [n - 32]
         else if n = 223 then [83, 83]
         else if n = 181 then [924]
         else if n = 255 then [376]
         else [n])"

definition toUpperCase :: "string \<Rightarrow> nat list" where
  "toUpperCase s = concat (map toUpperChar s)"

definition microsoftMap :: "(string \<times> string) list" where
  "microsoftMap =
     [(''zh'', ''zh-Hans''), (''zh-CN'', ''zh-Hans''), (''zh-TW'', ''zh-Hant''),
      (''sr-Latn'', ''sr-Latn''), (''sr-Cyrl'', ''sr-Cyrl''), (''no'', ''nb''), (''pt'', ''pt''),
      (''pt-BR'', ''pt-br''), (''pt-PT'', ''pt-pt''), (''sr'', ''sr-Cyrl'')]"

definition microsoft_mapLanguageCode :: "string \<Rightarrow> jsval" where
  "microsoft_mapLanguageCode languageCode =
     orElse (getProperty microsoftMap languageCode) (JString languageCode)"

definition deeplMap :: "(string \<times> string) list" where
  "deeplMap =
     [(''en'', ''EN''), (''es'', ''ES''), (''fr'', ''FR''), (''de'', ''DE''), (''it'', ''IT''),
      (''pt'', ''PT''), (''ru'', ''RU''), (''zh'', ''ZH''), (''ja'', ''JA''), (''ko'', ''KO'')]"

text \<open>
  The result of the adapter for DeepL, \<open>languageMap[languageCode] || languageCode.toUpperCase()\<close>,
  is a text given by its code points, or an inherited member.
\<close>

datatype wideval = WString "nat list" | WInherited string

definition deepl_mapLanguageCode :: "string \<Rightarrow> wideval" where
  "deepl_mapLanguageCode languageCode =
     (case getProperty deeplMap languageCode of
        None \<Rightarrow> WString (toUpperCase languageCode)
      | Some (JString s) \<Rightarrow>
          if s = [] then WString (toUpperCase languageCode) else WString (codePoints s)
      | Some (JInherited k) \<Rightarrow> WInherited k)"

definition amazonMap :: "(string \<times> string) list" where
  "amazonMap =
     [(''zh'', ''zh''), (''zh-CN'', ''zh''), (''zh-TW'', ''zh-TW''), (''ja'', ''ja''),
      (''ko'', ''ko''), (''ar'', ''ar''), (''cs'', ''cs''), (''da'', ''da''), (''nl'', ''nl''),
      (''en'', ''en''), (''fi'', ''fi''), (''fr'', ''fr''), (''de'', ''de''), (''he'', ''he''),
      (''hi'', ''hi''), (''id'', ''id''), (''it'', ''it''), (''ms'', ''ms''), (''no'', ''no''),
      (''fa'', ''fa''), (''pl'', ''pl''), (''pt'', ''pt''), (''ro'', ''ro''), (''ru'', ''ru''),
      (''es'', ''es''), (''sv'', ''sv''), (''tr'', ''tr''), (''uk'', ''uk''), (''vi'', ''vi'')]"

definition amazon_mapLanguageCode :: "string \<Rightarrow> jsval" where
  "amazon_mapLanguageCode languageCode =
     orElse (getProperty amazonMap (toLowerCase languageCode))
       (JString (toLowerCase languageCode))"

definition argosMap :: "(string \<times> string) list" where
  "argosMap =
     [(''en'', ''en''), (''es'', ''es''), (''fr'', ''fr''), (''de'', ''de''), (''it'', ''it''),
      (''pt'', ''pt''), (''ru'', ''ru''), (''zh'', ''zh''), (''zh-CN'', ''zh''), (''ja'', ''ja''),
      (''ar'', ''ar''), (''hi'', ''hi''), (''bg'', ''bg''), (''ca'', ''ca''), (''cs'', ''cs''),
      (''da'', ''da''), (''nl'', ''nl''), (''fi'', ''fi''), (''el'', ''el''), (''he'', ''he''),
      (''hu'', ''hu''), (''id'', ''id''), (''ko'', ''ko''), (''pl'', ''pl''), (''ro'', ''ro''),
      (''sk'', ''sk''), (''sv'', ''sv''), (''tr'', ''tr''), (''uk'', ''uk'')]"

definition argos_mapLanguageCode :: "string \<Rightarrow> jsval" where
  "argos_mapLanguageCode languageCode =
     orElse (getProperty argosMap languageCode) (JString languageCode)"

definition libreMap :: "(string \<times> string) list" where
  "libreMap =
     [(''zh'', ''zh''), (''zh-CN'', ''zh''), (''zh-TW'', ''zh''), (''en'', ''en''),
      (''fr'', ''fr''), (''de'', ''de''), (''it'', ''it''), (''ja'', ''ja''), (''ko'', ''ko''),
      (''pt'', ''pt''), (''ru'', ''ru''), (''es'', ''es''), (''ar'', ''ar''), (''bg'', ''bg''),
      (''cs'', ''cs''), (''da'', ''da''), (''nl'', ''nl''), (''fi'', ''fi''), (''el'', ''el''),
      (''he'', ''he''), (''hi'', ''hi''), (''hu'', ''hu''), (''id'', ''id''), (''pl'', ''pl''),
      (''ro'', ''ro''), (''sk'', ''sk''), (''sv'', ''sv''), (''tr'', ''tr''), (''uk'', ''uk'')]"

definition baseCode :: "string \<Rightarrow> string" where
  \<comment> \<open>\<open>languageCode.split('-')[0].toLowerCase()\<close>\<close>
  "baseCode languageCode = toLowerCase (takeWhile (\<lambda>c. c \<noteq> CHR ''-'') languageCode)"

definition libre_mapLanguageCode :: "string \<Rightarrow> jsval" where
  "libre_mapLanguageCode languageCode =
     orElse (getProperty libreMap languageCode)
       (orElse (getProperty libreMap (baseCode languageCode)) (JString (baseCode languageCode)))"

section \<open>The offline provider (services/argos.js)\<close>

text \<open>
  The adapter runs shell commands and uses temporary files. \<open>commandLine\<close> is the text of
  each command. The log lists what the adapter did, oldest first; \<open>Provision\<close> marks a call
  of \<open>downloadLanguagePair\<close>. What a command or a file operation answers may depend on
  the moment, which is the length of the log. \<open>pairListed\<close> is the test of the pattern
  \<open>source -> target\<close> on a listing, \<open>packageOf\<close> the first group of the match of
  \<open>(\S+)\s+source -> target\<close>, and the two paths are the names built from the clock.
\<close>

datatype command =
  Which | ListAvailablePackages | InstallPackage string
  | TranslateCommand string string string string

fun commandLine :: "command \<Rightarrow> string" where
  "commandLine Which = ''which argos-translate''"
| "commandLine ListAvailablePackages = ''argos-translate --list-available-packages''"
| "commandLine (InstallPackage packageId) = ''argos-translate --install-package '' @ packageId"
| "commandLine (TranslateCommand s t i out) =
     ''argos-translate --from '' @ s @ '' --to '' @ t @ '' --input '' @ i @ '' --output '' @ out"

datatype argosEvent =
  Provision string string | Exec command | WriteFile string | ReadFile string | Unlink string

record argosEnv =
  execPromise :: "nat \<Rightarrow> command \<Rightarrow> string outcome"
  fsWriteFile :: "nat \<Rightarrow> string \<Rightarrow> string \<Rightarrow> unit outcome"
  fsReadFile :: "nat \<Rightarrow> string \<Rightarrow> string outcome"
  fsUnlink :: "nat \<Rightarrow> string \<Rightarrow> unit outcome"
  pairListed :: "string \<Rightarrow> string \<Rightarrow> string \<Rightarrow> bool"
  packageOf :: "string \<Rightarrow> string \<Rightarrow> string \<Rightarrow> string option"
  tempInputPath :: string
  tempOutputPath :: string

type_synonym 'a act = "argosEvent list \<Rightarrow> 'a outcome \<times> argosEvent list"

definition ret :: "'a \<Rightarrow> 'a act" where
  "ret x lg = (Resolved x, lg)"

definition throw :: "error \<Rightarrow> 'a act" where
  "throw e lg = (Rejected e, lg)"

definition andThen :: "'a act \<Rightarrow> ('a \<Rightarrow> 'b act) \<Rightarrow> 'b act" where
  \<comment> \<open>\<open>const x = await m; ...\<close>\<close>
  "andThen m f lg =
     (case m lg of
        (Resolved x, lg') \<Rightarrow> f x lg'
      | (Rejected e, lg') \<Rightarrow> (Rejected e, lg')
      | (Pending, lg') \<Rightarrow> (Pending, lg'))"

definition catch :: "'a act \<Rightarrow> (error \<Rightarrow> 'a act) \<Rightarrow> 'a act" where
  \<comment> \<open>\<open>try { m } catch (error) { h }\<close>\<close>
  "catch m h lg =
     (case m lg of
        (Rejected e, lg') \<Rightarrow> h e lg'
      | (Resolved x, lg') \<Rightarrow> (Resolved x, lg')
      | (Pending, lg') \<Rightarrow> (Pending, lg'))"

definition exec :: "argosEnv \<Rightarrow> command \<Rightarrow> string act" where
  "exec env cmd lg = (execPromise env (length lg) cmd, lg @ [Exec cmd])"

definition writeTemp :: "argosEnv \<Rightarrow> string \<Rightarrow> string \<Rightarrow> unit act" where
  "writeTemp env p content lg = (fsWriteFile env (length lg) p content, lg @ [WriteFile p])"

definition readTemp :: "argosEnv \<Rightarrow> string \<Rightarrow> string act" where
  "readTemp env p lg = (fsReadFile env (length lg) p, lg @ [ReadFile p])"

definition unlinkBoth :: "argosEnv \<Rightarrow> string \<Rightarrow> string \<Rightarrow> unit act" where
  \<comment> \<open>\<open>Promise.all\<close> of the two \<open>unlink\<close> calls: both are started; of two rejections the
      first one is taken\<close>
  "unlinkBoth env a b lg =
     ((case (fsUnlink env (length lg) a, fsUnlink env (length lg + 1) b) of
         (Rejected e, r) \<Rightarrow> Rejected e
       | (Pending, Rejected e) \<Rightarrow> Rejected e
       | (Pending, r) \<Rightarrow> Pending
       | (Resolved u, r) \<Rightarrow> r),
      lg @ [Unlink a, Unlink b])"

definition isInstalled :: "argosEnv \<Rightarrow> bool act" where
  "isInstalled env = catch (andThen (exec env Which) (\<lambda>out. ret True)) (\<lambda>e. ret False)"

definition isLanguagePairAvailable :: "argosEnv \<Rightarrow> string \<Rightarrow> string \<Rightarrow> bool act" where
  "isLanguagePairAvailable env s t =
     catch
       (andThen (isInstalled env) (\<lambda>installed.
          if \<not> installed then throw (Error ''Argos Translate not installed'')
          else andThen (exec env ListAvailablePackages) (\<lambda>stdout.
                 ret (pairListed env s t stdout))))
       (\<lambda>e. ret False)"

definition downloadLanguagePair :: "argosEnv \<Rightarrow> string \<Rightarrow> string \<Rightarrow> unit act" where
  "downloadLanguagePair env s t lg =
     catch
       (andThen (isInstalled env) (\<lambda>installed.
          if \<not> installed then throw (Error ''Argos Translate not installed'')
          else andThen (exec env ListAvailablePackages) (\<lambda>availablePackages.
                 case packageOf env s t availablePackages of
                   None \<Rightarrow> throw (Error (''No package available for '' @ s @ '' -> '' @ t))
                 | Some packageId \<Rightarrow>
                     if packageId = []
                     then throw (Error (''No package available for '' @ s @ '' -> '' @ t))
                     else andThen (exec env (InstallPackage packageId)) (\<lambda>out. ret ()))))
       (\<lambda>e. throw (Error (''Failed to download language pair: '' @ message e)))
       (lg @ [Provision s t])"

definition display :: "jsval \<Rightarrow> string" where
  \<comment> \<open>the value inside a template string; an inherited member prints as its source text,
      for which a placeholder stands\<close>
  "display v = (case v of JString s \<Rightarrow> s | JInherited k \<Rightarrow> ''[inherited '' @ k @ '']'')"

definition argos_translate :: "argosEnv \<Rightarrow> string \<Rightarrow> string \<Rightarrow> string \<Rightarrow> string act" where
  "argos_translate env txt sourceLang targetLang =
     catch
       (andThen
          (isLanguagePairAvailable env (display (argos_mapLanguageCode sourceLang))
             (display (argos_mapLanguageCode targetLang))) (\<lambda>isPairAvailable.
        andThen
          (if \<not> isPairAvailable
           then downloadLanguagePair env (display (argos_mapLanguageCode sourceLang))
                  (display (argos_mapLanguageCode targetLang))
           else ret ()) (\<lambda>u.
        andThen (writeTemp env (tempInputPath env) txt) (\<lambda>u.
        andThen
          (exec env (TranslateCommand (display (argos_mapLanguageCode sourceLang))
                       (display (argos_mapLanguageCode targetLang))
                       (tempInputPath env) (tempOutputPath env))) (\<lambda>out.
        andThen (readTemp env (tempOutputPath env)) (\<lambda>translatedText.
        andThen (unlinkBoth env (tempInputPath env) (tempOutputPath env)) (\<lambda>u.
        ret translatedText)))))))
       (\<lambda>error.
          if sublist ''not installed'' (message error)
             \<or> sublist ''No such file or directory'' (message error)
          then throw (Error ''Argos Translate not installed. Please install it first.'')
          else if sublist ''package not available'' (message error)
          then throw (Error (''Language pair from '' @ sourceLang @ '' to '' @ targetLang
                               @ '' is not available.''))
          else throw (Error (''Argos Translate failed: '' @ message error)))"

definition provisionCalls :: "argosEvent list \<Rightarrow> nat" where
  "provisionCalls lg = length (filter (\<lambda>e. case e of Provision s t \<Rightarrow> True | _ \<Rightarrow> False) lg)"

definition translationRuns :: "argosEvent list \<Rightarrow> nat" where
  "translationRuns lg =
     length (filter (\<lambda>e. case e of Exec (TranslateCommand s t i out) \<Rightarrow> True | _ \<Rightarrow> False) lg)"

definition argosSample :: "string option \<Rightarrow> argosEnv" where
  \<comment> \<open>every command and file operation succeeds; the listing never shows the pair to the
      test, and holds the given package for it, or none\<close>
  "argosSample pkg =
     \<lparr>execPromise = (\<lambda>k c. Resolved ''ok''), fsWriteFile = (\<lambda>k p c. Resolved ()),
      fsReadFile = (\<lambda>k p. Resolved ''Hola.''), fsUnlink = (\<lambda>k p. Resolved ()),
      pairListed = (\<lambda>s t out. False), packageOf = (\<lambda>s t out. pkg),
      tempInputPath = ''/tmp/argos_input_1.txt'', tempOutputPath = ''/tmp/argos_output_1.txt''\<rparr>"

section \<open>Properties of the chunker\<close>


lemma takeWhile_terminal_append:
  assumes "\<forall>c \<in> set rest. \<not> isTerminal c"
  shows "takeWhile isTerminal (d @ rest) = takeWhile isTerminal d"
proof (cases "\<forall>x \<in> set d. isTerminal x")
  case True
  have "takeWhile isTerminal rest = []"
    using assms by (cases rest) auto
  have a: "takeWhile isTerminal (d @ rest) = d @ takeWhile isTerminal rest"
    by (rule takeWhile_append2) (use True in blast)
  have c: "takeWhile isTerminal d = d"
    by (rule takeWhile_eq_all_conv [THEN iffD2]) (use True in blast)
  show ?thesis
    by (simp only: a c \<open>takeWhile isTerminal rest = []\<close> append_Nil2)
next
  case False
  then show ?thesis by (auto simp: takeWhile_append1)
qed

lemma dropWhile_terminal_append:
  assumes "\<forall>c \<in> set rest. \<not> isTerminal c"
  shows "dropWhile isTerminal (d @ rest) = dropWhile isTerminal d @ rest"
proof (cases "\<forall>x \<in> set d. isTerminal x")
  case True
  have "dropWhile isTerminal rest = rest"
    using assms by (cases rest) auto
  with True show ?thesis by (simp add: dropWhile_append2)
next
  case False
  then show ?thesis by (auto simp: dropWhile_append1)
qed

lemma matchSentences_unfold:
  "s \<noteq> [] \<Longrightarrow> \<not> isTerminal (hd s) \<Longrightarrow>
   matchSentences s =
     (if takeWhile isTerminal (dropWhile (\<lambda>x. \<not> isTerminal x) s) = [] then []
      else (takeWhile (\<lambda>x. \<not> isTerminal x) s
              @ takeWhile isTerminal (dropWhile (\<lambda>x. \<not> isTerminal x) s))
           # matchSentences (dropWhile isTerminal (dropWhile (\<lambda>x. \<not> isTerminal x) s)))"
  by (cases s) (simp_all add: matchSentences.simps(2) del: takeWhile.simps dropWhile.simps)

lemma matchSentences_no_terminal:
  "\<forall>c \<in> set s. \<not> isTerminal c \<Longrightarrow> matchSentences s = []"
proof (cases s)
  case Nil
  then show ?thesis by simp
next
  case (Cons c cs)
  assume "\<forall>c \<in> set s. \<not> isTerminal c"
  then have dn: "dropWhile (\<lambda>x. \<not> isTerminal x) s = []"
    by (simp add: dropWhile_eq_Nil_conv)
  have "s \<noteq> []" "\<not> isTerminal (hd s)"
    using Cons \<open>\<forall>c \<in> set s. \<not> isTerminal c\<close> by auto
  then show ?thesis
    unfolding matchSentences_unfold [OF \<open>s \<noteq> []\<close> \<open>\<not> isTerminal (hd s)\<close>] dn by simp
qed

lemma matchSentences_append_unterminated:
  assumes "\<forall>c \<in> set rest. \<not> isTerminal c"
  shows "matchSentences (t @ rest) = matchSentences t"
proof (induction t rule: matchSentences.induct)
  case 1
  show ?case using assms by (simp add: matchSentences_no_terminal)
next
  case (2 c cs)
  let ?d = "dropWhile (\<lambda>x. \<not> isTerminal x) (c # cs)"
  show ?case
  proof (cases "isTerminal c")
    case True
    with 2 show ?thesis by (simp add: matchSentences.simps(2))
  next
    case nt: False
    show ?thesis
    proof (cases "?d = []")
      case True
      then have "\<forall>x \<in> set (c # cs). \<not> isTerminal x"
        by (simp only: dropWhile_eq_Nil_conv)
      with assms have "\<forall>x \<in> set ((c # cs) @ rest). \<not> isTerminal x" by auto
      then have "matchSentences ((c # cs) @ rest) = []"
        by (rule matchSentences_no_terminal)
      moreover have "matchSentences (c # cs) = []"
        using \<open>\<forall>x \<in> set (c # cs). \<not> isTerminal x\<close> by (rule matchSentences_no_terminal)
      ultimately show ?thesis by simp
    next
      case False
      then have ex: "\<exists>x \<in> set (c # cs). \<not> \<not> isTerminal x"
        by (simp only: dropWhile_eq_Nil_conv) blast
      then obtain x where x: "x \<in> set (c # cs)" "\<not> \<not> isTerminal x"
        by blast
      have d: "dropWhile (\<lambda>x. \<not> isTerminal x) ((c # cs) @ rest) = ?d @ rest"
        using x by (rule dropWhile_append1)
      have t: "takeWhile (\<lambda>x. \<not> isTerminal x) ((c # cs) @ rest)
                 = takeWhile (\<lambda>x. \<not> isTerminal x) (c # cs)"
        using x by (rule takeWhile_append1)
      have hd: "isTerminal (hd ?d)"
        using False hd_dropWhile [of "\<lambda>x. \<not> isTerminal x" "c # cs"] by simp
      then have tw: "takeWhile isTerminal ?d \<noteq> []"
        using False by (cases ?d) auto
      have ih: "matchSentences (dropWhile isTerminal ?d @ rest)
                  = matchSentences (dropWhile isTerminal ?d)"
        using "2.IH"(2) [OF nt tw] .
      have "matchSentences ((c # cs) @ rest)
              = (takeWhile (\<lambda>x. \<not> isTerminal x) (c # cs) @ takeWhile isTerminal ?d)
                # matchSentences (dropWhile isTerminal ?d @ rest)"
        using nt tw
        by (simp add: matchSentences_unfold [of "(c # cs) @ rest"] d t
              takeWhile_terminal_append [OF assms] dropWhile_terminal_append [OF assms]
            del: takeWhile.simps dropWhile.simps append_Cons)
      also have "\<dots> = matchSentences (c # cs)"
        using nt tw by (simp add: matchSentences_unfold [of "c # cs"] ih del: takeWhile.simps dropWhile.simps)
      finally show ?thesis .
    qed
  qed
qed

lemma splitIntoChunks_Nil: "splitIntoChunks [] L = []"
  by (simp add: splitIntoChunks_def pushCurrent_def)

text \<open>
  Claim C10. A text without \<open>.\<close>, \<open>!\<close> or \<open>?\<close> gives no chunk at all, and whatever follows
  the last terminal character of a text has no effect on the chunks: the chunks of
  \<open>front @ rest\<close> are the chunks of \<open>front\<close> whenever \<open>rest\<close> holds no terminal character.
\<close>

theorem splitIntoChunks_drops_unterminated_suffix:
  "(\<forall>c \<in> set rest. \<not> isTerminal c) \<longrightarrow>
     splitIntoChunks rest chunkSize = [] \<and>
     splitIntoChunks (front @ rest) chunkSize = splitIntoChunks front chunkSize"
  by (simp add: splitIntoChunks_def matchSentences_append_unterminated
        matchSentences_no_terminal pushCurrent_def)

theorem splitIntoChunks_drops_unterminated_suffix_witness:
  "list_all (\<lambda>c. \<not> isTerminal c) '' and the rest'' \<and>
   splitIntoChunks '' and the rest'' 10 = [] \<and>
   splitIntoChunks (''Hi. Ok!'' @ '' and the rest'') 10 = splitIntoChunks ''Hi. Ok!'' 10"
proof -
  have h: "\<forall>c \<in> set '' and the rest''. \<not> isTerminal c"
    by (simp add: isTerminal_def)
  with splitIntoChunks_drops_unterminated_suffix [of "'' and the rest''" 10 "''Hi. Ok!''"]
  show ?thesis by (simp add: list_all_iff)
qed

lemma terminal_not_space: "isTerminal c \<Longrightarrow> \<not> isSpace c"
  by (auto simp: isTerminal_def isSpace_def)

lemma last_dropWhile: "dropWhile P xs \<noteq> [] \<Longrightarrow> last (dropWhile P xs) = last xs"
proof -
  assume ne: "dropWhile P xs \<noteq> []"
  have "last xs = last (takeWhile P xs @ dropWhile P xs)" by simp
  also have "\<dots> = last (dropWhile P xs)" using ne by (rule last_appendR)
  finally show ?thesis by simp
qed

lemma dropWhile_last_ne: "xs \<noteq> [] \<Longrightarrow> \<not> P (last xs) \<Longrightarrow> dropWhile P xs \<noteq> []"
  by (auto simp: dropWhile_eq_Nil_conv)

lemma matchSentences_sentence:
  "s \<in> set (matchSentences t) \<Longrightarrow> s \<noteq> [] \<and> isTerminal (last s) \<and> sublist s t"
proof (induction t rule: matchSentences.induct)
  case 1
  then show ?case by simp
next
  case (2 c cs)
  let ?d = "dropWhile (\<lambda>x. \<not> isTerminal x) (c # cs)"
  let ?m = "takeWhile isTerminal ?d"
  let ?b = "takeWhile (\<lambda>x. \<not> isTerminal x) (c # cs)"
  show ?case
  proof (cases "isTerminal c")
    case True
    with 2 have "s \<noteq> [] \<and> isTerminal (last s) \<and> sublist s cs"
      by (simp add: matchSentences.simps(2))
    moreover have "sublist cs (c # cs)"
      using sublist_append_leftI [of cs "[c]"] by simp
    ultimately show ?thesis
      using sublist_order.order.trans by blast
  next
    case nt: False
    show ?thesis
    proof (cases "?m = []")
      case True
      with nt "2.prems" show ?thesis
        by (simp add: matchSentences_unfold [of "c # cs"] del: takeWhile.simps dropWhile.simps)
    next
      case False
      from nt False "2.prems"
      consider "s = ?b @ ?m" | "s \<in> set (matchSentences (dropWhile isTerminal ?d))"
        by (auto simp add: matchSentences_unfold [of "c # cs"] simp del: takeWhile.simps dropWhile.simps)
      then show ?thesis
      proof cases
        case 1
        have "last s = last ?m" using 1 False by simp
        moreover have "last ?m \<in> set ?m" using False by (rule last_in_set)
        ultimately have "isTerminal (last s)" by (auto dest: set_takeWhileD)
        moreover have "s \<noteq> []" using 1 False by simp
        moreover have "sublist s (c # cs)"
        proof -
          have "c # cs = ?b @ ?d" by (simp only: takeWhile_dropWhile_id)
          also have "\<dots> = ?b @ ?m @ dropWhile isTerminal ?d" by (simp only: takeWhile_dropWhile_id)
          finally have "c # cs = [] @ s @ dropWhile isTerminal ?d" using 1 by simp
          then show ?thesis unfolding sublist_def by blast
        qed
        ultimately show ?thesis by blast
      next
        case 2
        then have "s \<noteq> [] \<and> isTerminal (last s) \<and> sublist s (dropWhile isTerminal ?d)"
          using "2.IH"(2) [OF nt False] by blast
        moreover have "sublist (dropWhile isTerminal ?d) (c # cs)"
          using sublist_dropWhile [of isTerminal ?d] sublist_dropWhile [of "\<lambda>x. \<not> isTerminal x" "c # cs"]
            sublist_order.order.trans by blast
        ultimately show ?thesis
          using sublist_order.order.trans by blast
      qed
    qed
  qed
qed

lemma splitWs_no_space:
  "dropWhile (\<lambda>x. \<not> isSpace x) s = [] \<Longrightarrow> splitWs s = [s]"
  by (subst splitWs.simps) (simp del: dropWhile_eq_Nil_conv)

lemma splitWs_space:
  "dropWhile (\<lambda>x. \<not> isSpace x) s \<noteq> [] \<Longrightarrow>
   splitWs s = takeWhile (\<lambda>x. \<not> isSpace x) s
                 # splitWs (dropWhile isSpace (dropWhile (\<lambda>x. \<not> isSpace x) s))"
  by (subst splitWs.simps) (simp del: dropWhile_eq_Nil_conv)

lemma splitWs_word:
  "w \<in> set (splitWs s) \<Longrightarrow> (\<forall>x \<in> set w. \<not> isSpace x) \<and> sublist w s"
proof (induction s rule: splitWs.induct)
  case (1 s)
  let ?d = "dropWhile (\<lambda>x. \<not> isSpace x) s"
  show ?case
  proof (cases "?d = []")
    case True
    then have "\<forall>x \<in> set s. \<not> isSpace x" by (simp only: dropWhile_eq_Nil_conv)
    moreover have "w = s" using "1.prems" by (simp add: splitWs_no_space [OF True])
    ultimately show ?thesis by simp
  next
    case False
    then consider "w = takeWhile (\<lambda>x. \<not> isSpace x) s" | "w \<in> set (splitWs (dropWhile isSpace ?d))"
      using "1.prems" by (auto simp: splitWs_space [OF False])
    then show ?thesis
    proof cases
      case 1
      then show ?thesis by (auto dest: set_takeWhileD)
    next
      case 2
      then have "(\<forall>x \<in> set w. \<not> isSpace x) \<and> sublist w (dropWhile isSpace ?d)"
        using "1.IH" [OF False] by blast
      moreover have "sublist (dropWhile isSpace ?d) s"
        using sublist_dropWhile [of isSpace ?d] sublist_dropWhile [of "\<lambda>x. \<not> isSpace x" s]
          sublist_order.order.trans by blast
      ultimately show ?thesis using sublist_order.order.trans by blast
    qed
  qed
qed

lemma splitWs_last:
  "s \<noteq> [] \<Longrightarrow> \<not> isSpace (last s) \<Longrightarrow> splitWs s \<noteq> [] \<and> last (splitWs s) \<noteq> []"
proof (induction s rule: splitWs.induct)
  case (1 s)
  let ?d = "dropWhile (\<lambda>x. \<not> isSpace x) s"
  show ?case
  proof (cases "?d = []")
    case True
    then show ?thesis using "1.prems" by (simp add: splitWs_no_space [OF True])
  next
    case False
    have ld: "last ?d = last s" using False by (rule last_dropWhile)
    have "\<not> isSpace (last ?d)"
      unfolding ld by (rule "1.prems"(2))
    with False have ne: "dropWhile isSpace ?d \<noteq> []"
      by (rule dropWhile_last_ne)
    then have "last (dropWhile isSpace ?d) = last s"
      using ld by (simp add: last_dropWhile)
    then have "splitWs (dropWhile isSpace ?d) \<noteq> [] \<and> last (splitWs (dropWhile isSpace ?d)) \<noteq> []"
      using "1.IH" [OF False ne] "1.prems"(2) by simp
    then show ?thesis by (simp add: splitWs_space [OF False])
  qed
qed

lemma wordLoop_chunks:
  assumes "\<forall>c \<in> set chunks. length c \<le> L \<or> c \<in> W"
    and "length cur \<le> L \<or> cur \<in> W"
    and "set ws \<subseteq> W"
  shows "(\<forall>c \<in> set (fst (wordLoop L ws chunks cur)). length c \<le> L \<or> c \<in> W) \<and>
         (length (snd (wordLoop L ws chunks cur)) \<le> L \<or> snd (wordLoop L ws chunks cur) \<in> W)"
  using assms
proof (induction ws arbitrary: chunks cur)
  case Nil
  then show ?case by simp
next
  case (Cons w ws)
  have ws: "set ws \<subseteq> W" and w: "length w \<le> L \<or> w \<in> W"
    using Cons.prems(3) by simp_all
  show ?case
  proof (cases "length (cur @ '' '' @ w) \<le> L")
    case True
    let ?cur' = "cur @ (if cur \<noteq> [] then '' '' else []) @ w"
    have "length ?cur' \<le> L" using True by simp
    then have cur': "length ?cur' \<le> L \<or> ?cur' \<in> W" ..
    have step: "wordLoop L (w # ws) chunks cur = wordLoop L ws chunks ?cur'"
      using True by simp
    show ?thesis
      unfolding step by (rule Cons.IH [OF Cons.prems(1) cur' ws])
  next
    case False
    let ?chunks' = "if cur \<noteq> [] then chunks @ [cur] else chunks"
    have chunks': "\<forall>c \<in> set ?chunks'. length c \<le> L \<or> c \<in> W"
      using Cons.prems(1,2) by auto
    have step: "wordLoop L (w # ws) chunks cur = wordLoop L ws ?chunks' w"
      using False by simp
    show ?thesis
      unfolding step by (rule Cons.IH [OF chunks' w ws])
  qed
qed

lemma wordLoop_last:
  "ws \<noteq> [] \<Longrightarrow> last ws \<noteq> [] \<Longrightarrow> snd (wordLoop L ws chunks cur) \<noteq> []"
proof (induction ws arbitrary: chunks cur)
  case Nil
  then show ?case by simp
next
  case (Cons w ws)
  show ?case
  proof (cases "ws = []")
    case True
    then show ?thesis using Cons.prems by simp
  next
    case False
    then show ?thesis using Cons by simp
  qed
qed

lemma splitLongSentence_chunks:
  "c \<in> set (splitLongSentence s L) \<Longrightarrow> length c \<le> L \<or> c \<in> set (splitWs s)"
proof -
  assume c: "c \<in> set (splitLongSentence s L)"
  have inv: "(\<forall>c \<in> set (fst (wordLoop L (splitWs s) [] [])). length c \<le> L \<or> c \<in> set (splitWs s)) \<and>
         (length (snd (wordLoop L (splitWs s) [] [])) \<le> L \<or> snd (wordLoop L (splitWs s) [] []) \<in> set (splitWs s))"
    by (rule wordLoop_chunks) simp_all
  from c inv show ?thesis
    by (cases "wordLoop L (splitWs s) [] []") (auto simp: splitLongSentence_def split: if_splits)
qed

lemma splitLongSentence_nonempty:
  "s \<noteq> [] \<Longrightarrow> \<not> isSpace (last s) \<Longrightarrow> splitLongSentence s L \<noteq> []"
  using wordLoop_last [of "splitWs s" L "[]" "[]"] splitWs_last [of s]
  by (cases "wordLoop L (splitWs s) [] []") (auto simp: splitLongSentence_def)

lemma sentenceLoop_chunks:
  assumes "\<forall>s \<in> set ss. s \<noteq> [] \<and> \<not> isSpace (last s) \<and> set (splitWs s) \<subseteq> W"
    and "\<forall>c \<in> set chunks. length c \<le> L \<or> c \<in> W"
    and "cur = Some c0" and "length c0 \<le> L \<or> c0 \<in> W"
  shows "\<forall>c \<in> set (pushCurrent (fst (sentenceLoop L ss chunks cur)) (snd (sentenceLoop L ss chunks cur))).
           length c \<le> L \<or> c \<in> W"
  using assms
proof (induction ss arbitrary: chunks cur c0)
  case Nil
  then show ?case by (auto simp: pushCurrent_def)
next
  case (Cons s ss)
  have tl: "\<forall>s \<in> set ss. s \<noteq> [] \<and> \<not> isSpace (last s) \<and> set (splitWs s) \<subseteq> W"
    using Cons.prems(1) by simp
  have pc: "\<forall>c \<in> set (pushCurrent chunks cur). length c \<le> L \<or> c \<in> W"
    using Cons.prems by (auto simp: pushCurrent_def)
  show ?case
  proof (cases "length (jsConcat cur s) \<le> L")
    case True
    then show ?thesis
      using Cons.IH [OF tl Cons.prems(2), of "Some (jsConcat cur s)" "jsConcat cur s"] by simp
  next
    case False
    show ?thesis
    proof (cases "length s > L")
      case long: True
      let ?sc = "splitLongSentence s L"
      have ne: "?sc \<noteq> []"
        using Cons.prems(1) by (simp add: splitLongSentence_nonempty)
      have sc: "\<forall>c \<in> set ?sc. length c \<le> L \<or> c \<in> W"
        using splitLongSentence_chunks [of _ s L] Cons.prems(1) by auto
      have "\<forall>c \<in> set (pushCurrent chunks cur @ butlast ?sc). length c \<le> L \<or> c \<in> W"
        using pc sc by (auto dest: in_set_butlastD)
      moreover have "lastElement ?sc = Some (last ?sc)"
        using ne by (simp add: lastElement_def)
      moreover have "length (last ?sc) \<le> L \<or> last ?sc \<in> W"
        using sc ne by simp
      ultimately show ?thesis
        using False long Cons.IH [OF tl, of "pushCurrent chunks cur @ butlast ?sc" "lastElement ?sc" "last ?sc"]
        by simp
    next
      case short: False
      then show ?thesis
        using False Cons.IH [OF tl pc, of "Some s" s] by simp
    qed
  qed
qed

text \<open>
  Claim C2. Every chunk is at most \<open>chunkSize\<close> characters long, unless it is a single
  token: a piece without white space that \<open>split\<close> cut out of one sentence span, and a
  contiguous part of the input text, taken over as it stands.
\<close>

theorem splitIntoChunks_chunk_bound:
  "\<forall>c \<in> set (splitIntoChunks t chunkSize).
     length c \<le> chunkSize \<or>
     ((\<forall>x \<in> set c. \<not> isSpace x) \<and> sublist c t \<and>
      (\<exists>s \<in> set (matchSentences t). c \<in> set (splitWs s)))"
proof -
  let ?W = "\<Union>s \<in> set (matchSentences t). set (splitWs s)"
  have "\<forall>s \<in> set (matchSentences t). s \<noteq> [] \<and> \<not> isSpace (last s) \<and> set (splitWs s) \<subseteq> ?W"
    using matchSentences_sentence terminal_not_space by blast
  then have "\<forall>c \<in> set (pushCurrent (fst (sentenceLoop chunkSize (matchSentences t) [] (Some [])))
                         (snd (sentenceLoop chunkSize (matchSentences t) [] (Some [])))).
           length c \<le> chunkSize \<or> c \<in> ?W"
    by (rule sentenceLoop_chunks [where ?c0.0 = "[]"]) simp_all
  then have *: "\<forall>c \<in> set (splitIntoChunks t chunkSize). length c \<le> chunkSize \<or> c \<in> ?W"
    by (cases "sentenceLoop chunkSize (matchSentences t) [] (Some [])")
       (simp add: splitIntoChunks_def)
  show ?thesis
  proof
    fix c assume "c \<in> set (splitIntoChunks t chunkSize)"
    with * consider "length c \<le> chunkSize" | "c \<in> ?W" by blast
    then show "length c \<le> chunkSize \<or>
     ((\<forall>x \<in> set c. \<not> isSpace x) \<and> sublist c t \<and>
      (\<exists>s \<in> set (matchSentences t). c \<in> set (splitWs s)))"
    proof cases
      case 1
      then show ?thesis by simp
    next
      case 2
      then obtain s where s: "s \<in> set (matchSentences t)" "c \<in> set (splitWs s)" by blast
      then have "sublist c s" "\<forall>x \<in> set c. \<not> isSpace x" "sublist s t"
        using splitWs_word matchSentences_sentence by blast+
      then have "sublist c t" using sublist_order.order.trans by blast
      with s \<open>\<forall>x \<in> set c. \<not> isSpace x\<close> show ?thesis by blast
    qed
  qed
qed

theorem splitIntoChunks_chunk_bound_witness:
  "''veryveryverylongword'' \<in> set (splitIntoChunks ''Hi. A veryveryverylongword here.'' 12) \<and>
   \<not> length ''veryveryverylongword'' \<le> 12 \<and>
   list_all (\<lambda>x. \<not> isSpace x) ''veryveryverylongword'' \<and>
   sublist ''veryveryverylongword'' ''Hi. A veryveryverylongword here.''"
proof -
  have m: "''veryveryverylongword'' \<in> set (splitIntoChunks ''Hi. A veryveryverylongword here.'' 12)"
    by code_simp
  from splitIntoChunks_chunk_bound [of "''Hi. A veryveryverylongword here.''" 12, THEN bspec, OF m]
  show ?thesis using m by (simp add: list_all_iff)
qed

section \<open>Properties of the orchestrator\<close>

text \<open>
  Called as a plain function, \<open>extractText\<close> rejects for every format: for the four formats
  it knows with the \<open>TypeError\<close> of the call through \<open>this\<close>, which its \<open>catch\<close> turns into
  an \<open>Error\<close>, and for any other format with the error of its \<open>default\<close> case.
\<close>

lemma extractText_Global:
  "extractText Global env filePath fmt = Rejected (extractTextError fmt)"
  by (simp add: extractText_def extractTextError_def callThis_def wrapError_def)

text \<open>
  Called as a member of the module it runs the extractor of the format.
\<close>

lemma extractText_Module:
  "extractText Module env filePath ''txt'' =
     wrapError ''Failed to extract text: '' (extractFromTXT env filePath)"
proof -
  have "toLowerCase ''txt'' = ''txt''" by code_simp
  then show ?thesis by (simp add: extractText_def callThis_def)
qed

text \<open>
  So a run of \<open>processTranslation\<close> ends at the extraction at the latest. It stores the new
  record, the controller handles the requests that arrive while the working directory is
  made, and the run rejects; it never reaches the chunker, the providers, the
  reconstruction or the final update, and it never resolves.
\<close>

lemma processTranslation_unfold:
  "processTranslation env sched j w =
     (case validateNew env j of
        Some e \<Rightarrow> (Rejected e, w)
      | None \<Rightarrow>
          (case mkdir env (workDir env (newId env)) of
             Rejected e \<Rightarrow> Rejected e
           | Pending \<Rightarrow> Pending
           | Resolved _ \<Rightarrow> Rejected (extractTextError (jobFileFormat j)),
           handleAll env (sched 0) (snd (create env j w))))"
  by (simp add: processTranslation_def create_def extractText_Global Let_def
        split: option.splits outcome.splits)

lemma processTranslation_never_resolves:
  "fst (processTranslation env sched j w) \<noteq> Resolved r"
  by (simp add: processTranslation_unfold split: option.splits outcome.splits)

text \<open>
  Where the chunker called as a plain function returns, it returns the chunks of the
  chunker called as a member of the module.
\<close>

lemma sentenceLoopGlobal_agrees:
  "sentenceLoopGlobal chunkSize ss chunks cur = Resolved (cs, c) \<Longrightarrow>
   sentenceLoop chunkSize ss chunks (Some cur) = (cs, Some c)"
  by (induction ss arbitrary: chunks cur)
     (auto simp: jsConcat_def pushCurrent_def split: if_splits)

lemma splitIntoChunksGlobal_agrees:
  assumes "splitIntoChunksGlobal body chunkSize = Resolved cs"
  shows "cs = splitIntoChunks body chunkSize"
proof -
  from assms obtain chunks c where
    l: "sentenceLoopGlobal chunkSize (matchSentences body) [] [] = Resolved (chunks, c)"
    and cs: "cs = (if c \<noteq> [] then chunks @ [c] else chunks)"
    by (auto simp: splitIntoChunksGlobal_def split: outcome.splits)
  from sentenceLoopGlobal_agrees [OF l] cs show ?thesis
    by (simp add: splitIntoChunks_def pushCurrent_def)
qed

section \<open>Properties of the job record\<close>

text \<open>
  The method \<open>updateProgress\<close> of the schema stores the rounded percentage.
\<close>

lemma updateProgress_formula:
  "totalChunks t > 0 \<Longrightarrow>
   progress (updateProgress env n t) = roundPercent env n (totalChunks (updateProgress env n t))"
  by (simp add: updateProgress_def)

text \<open>
  A request leaves a record as it is, deletes it, or sets the status of a record that is
  neither \<open>completed\<close> nor \<open>canceled\<close> to \<open>canceled\<close>.
\<close>

lemma handle_db:
  assumes "db (handle env rq w) k = Some t'"
  shows "\<exists>t. db w k = Some t \<and>
           (t' = t \<or> (t' = t\<lparr>status := Canceled\<rparr> \<and> status t \<noteq> Completed \<and> status t \<noteq> Canceled))"
  using assms
  by (cases rq)
     (auto simp: cancelTranslation_def deleteTranslation_def
           split: option.splits if_splits)

lemma handleAll_db:
  "db (handleAll env rs w) k = Some t' \<Longrightarrow>
   \<exists>t. db w k = Some t \<and>
     (t' = t \<or> (t' = t\<lparr>status := Canceled\<rparr> \<and> status t \<noteq> Completed \<and> status t \<noteq> Canceled))"
proof (induction rs arbitrary: w)
  case Nil
  then show ?case by (simp add: handleAll_def)
next
  case (Cons rq rs)
  from Cons.prems have "db (handleAll env rs (handle env rq w)) k = Some t'"
    by (simp add: handleAll_def)
  from Cons.IH [OF this] obtain u where
    u: "db (handle env rq w) k = Some u"
       "t' = u \<or> (t' = u\<lparr>status := Canceled\<rparr> \<and> status u \<noteq> Completed \<and> status u \<noteq> Canceled)"
    by blast
  from handle_db [OF u(1)] obtain t where
    t: "db w k = Some t"
       "u = t \<or> (u = t\<lparr>status := Canceled\<rparr> \<and> status t \<noteq> Completed \<and> status t \<noteq> Canceled)"
    by blast
  from u(2) t(2) have
    "t' = t \<or> (t' = t\<lparr>status := Canceled\<rparr> \<and> status t \<noteq> Completed \<and> status t \<noteq> Canceled)"
    by auto
  with t(1) show ?case by blast
qed

text \<open>
  In every state that the code can bring about, every record and every persisted state is
  as \<open>Translation.create\<close> stored it, possibly canceled, no chunk was handed to a provider
  and no output file was written.
\<close>

lemma asCreated_cancel: "asCreated t \<Longrightarrow> asCreated (t\<lparr>status := Canceled\<rparr>)"
  by (simp add: asCreated_def)

lemma asCreated_newRecord: "asCreated (newRecord env j)"
  by (simp add: asCreated_def newRecord_def)

lemma handle_invariant: "worldInvariant w \<Longrightarrow> worldInvariant (handle env rq w)"
  by (cases rq)
     (auto simp: worldInvariant_def cancelTranslation_def deleteTranslation_def asCreated_cancel
           split: option.splits if_splits)

lemma handleAll_invariant: "worldInvariant w \<Longrightarrow> worldInvariant (handleAll env rs w)"
  unfolding handleAll_def
  by (induction rs arbitrary: w) (simp_all add: handle_invariant)

lemma create_invariant: "worldInvariant w \<Longrightarrow> worldInvariant (snd (create env j w))"
  by (auto simp: worldInvariant_def create_def asCreated_newRecord split: option.splits)

lemma processTranslation_invariant:
  "worldInvariant w \<Longrightarrow> worldInvariant (snd (processTranslation env sched j w))"
  by (auto simp: processTranslation_unfold handleAll_invariant create_invariant
           split: option.splits)

lemma perform_invariant: "worldInvariant w \<Longrightarrow> worldInvariant (perform opn w)"
  by (cases opn) (simp_all add: handle_invariant processTranslation_invariant)

lemma reachable_invariant: "reachable w \<Longrightarrow> worldInvariant w"
  by (induction rule: reachable.induct)
     (simp_all add: perform_invariant, simp add: worldInvariant_def emptyWorld_def)


lemma updatesOf_asCreated: "worldInvariant w \<Longrightarrow> t \<in> set (updatesOf k w) \<Longrightarrow> asCreated t"
  by (auto simp: worldInvariant_def updatesOf_def list_all_iff)

lemma sorted_constant: "\<forall>x \<in> set xs. f x = (0 :: nat) \<Longrightarrow> sorted (map f xs)"
  by (induction xs) auto

lemma sample_validateNew:
  "svc \<in> set services \<Longrightarrow> validateNew (sampleEnv base) (sampleJob ''txt'' svc) = None"
  by (simp add: validateNew_def sampleEnv_def sampleJob_def fileFormats_def)

lemma sample_facts:
  "castObjectId (sampleEnv base) sampleUser = Some sampleUser"
  "castObjectId (sampleEnv base) sampleId = Some sampleId"
  "newId (sampleEnv base) = sampleId"
  "mkdir (sampleEnv base) p = Resolved ()"
  "jobUserId (sampleJob fmt svc) = sampleUser"
  "jobFileFormat (sampleJob fmt svc) = fmt"
  by (simp_all add: sampleEnv_def sampleJob_def)

lemma sample_run:
  "processTranslation (sampleEnv base) sched (sampleJob ''txt'' ''deepl'') emptyWorld =
     (Rejected (Error ''Failed to extract text: this.extractFromTXT is not a function''),
      handleAll (sampleEnv base) (sched 0)
        \<lparr>db = [sampleId \<mapsto> newRecord (sampleEnv base) (sampleJob ''txt'' ''deepl'')],
         writes = [(sampleId, newRecord (sampleEnv base) (sampleJob ''txt'' ''deepl''))],
         submitted = [], files = Map.empty\<rparr>)"
proof -
  have "toLowerCase ''txt'' = ''txt''" by code_simp
  then have "extractTextError ''txt'' = Error ''Failed to extract text: this.extractFromTXT is not a function''"
    by (simp add: extractTextError_def)
  then show ?thesis
    by (simp add: processTranslation_unfold sample_validateNew [of "''deepl''", simplified services_def, simplified]
          sample_facts create_def emptyWorld_def)
qed

lemma sample_run_canceled:
  "snd (processTranslation (sampleEnv base) sampleCancel (sampleJob ''txt'' ''deepl'') emptyWorld) =
     \<lparr>db = [sampleId \<mapsto> (newRecord (sampleEnv base) (sampleJob ''txt'' ''deepl''))\<lparr>status := Canceled\<rparr>],
      writes = [(sampleId, newRecord (sampleEnv base) (sampleJob ''txt'' ''deepl'')),
                (sampleId, (newRecord (sampleEnv base) (sampleJob ''txt'' ''deepl''))\<lparr>status := Canceled\<rparr>)],
      submitted = [], files = Map.empty\<rparr>"
  by (simp add: sample_run sampleCancel_def handleAll_def cancelTranslation_def sample_facts
        newRecord_def)



text \<open>
  Once the owner's request to cancel a record is handled, the record stays canceled under
  the requests that follow, or is deleted.
\<close>

lemma handleAll_append:
  "handleAll env (xs @ ys) w = handleAll env ys (handleAll env xs w)"
  by (simp add: handleAll_def)

lemma handleAll_Cons:
  "handleAll env (rq # rs) w = handleAll env rs (handle env rq w)"
  by (simp add: handleAll_def)

lemma handle_Cancel_owner:
  assumes "castObjectId env i = Some k"
      and "\<forall>t. db w k = Some t \<longrightarrow> userId t = uid \<and> status t \<noteq> Completed"
      and "db (handle env (Cancel i uid) w) k = Some t'"
  shows "status t' = Canceled"
  using assms by (auto simp: cancelTranslation_def split: option.splits if_splits)

lemma canceled_after_Cancel:
  assumes c: "castObjectId env i = Some k"
      and o: "\<forall>t. db w k = Some t \<longrightarrow> userId t = uid \<and> status t \<noteq> Completed"
      and m: "Cancel i uid \<in> set rs"
      and d: "db (handleAll env rs w) k = Some t'"
  shows "status t' = Canceled"
proof -
  from m obtain xs ys where rs: "rs = xs @ Cancel i uid # ys"
    by (auto dest: split_list)
  let ?w1 = "handleAll env xs w"
  let ?w2 = "handle env (Cancel i uid) ?w1"
  from d have d2: "db (handleAll env ys ?w2) k = Some t'"
    by (simp add: rs handleAll_append handleAll_Cons)
  from handleAll_db [OF d2] obtain u where
    u: "db ?w2 k = Some u"
       "t' = u \<or> (t' = u\<lparr>status := Canceled\<rparr> \<and> status u \<noteq> Completed \<and> status u \<noteq> Canceled)"
    by blast
  have "\<forall>t. db ?w1 k = Some t \<longrightarrow> userId t = uid \<and> status t \<noteq> Completed"
  proof (intro allI impI)
    fix t assume "db ?w1 k = Some t"
    from handleAll_db [OF this] o show "userId t = uid \<and> status t \<noteq> Completed"
      by auto
  qed
  from handle_Cancel_owner [OF c this u(1)] have "status u = Canceled" .
  with u(2) show ?thesis by auto
qed

lemma create_db:
  "validateNew env j = None \<Longrightarrow> db (snd (create env j w)) (newId env) = Some (newRecord env j)"
  by (simp add: create_def)





text \<open>
  Claim C6 fails on the code. For every job that the schema accepts, once its working
  directory is made, the run rejects with the error of the extraction, and the record is
  left without a failure reason and in a status other than \<open>failed\<close>; with no request
  handled meanwhile it is left exactly as \<open>Translation.create\<close> stored it, in status
  \<open>processing\<close>. Nothing calls \<open>markFailed\<close>.
\<close>

theorem failure_not_recorded:
  assumes "validateNew env j = None"
      and "mkdir env (workDir env (newId env)) = Resolved ()"
      and "processTranslation env sched j w = (r, W)"
  shows "r = Rejected (extractTextError (jobFileFormat j)) \<and>
         (\<forall>t. db W (newId env) = Some t \<longrightarrow> status t \<noteq> Failed \<and> errorMessage t = None) \<and>
         (sched 0 = [] \<longrightarrow> db W (newId env) = Some (newRecord env j))"
proof -
  from assms have r: "r = Rejected (extractTextError (jobFileFormat j))"
    and W: "W = handleAll env (sched 0) (snd (create env j w))"
    by (simp_all add: processTranslation_unfold)
  have "status t \<noteq> Failed \<and> errorMessage t = None" if "db W (newId env) = Some t" for t
  proof -
    from that obtain u where
      u: "db (snd (create env j w)) (newId env) = Some u"
         "t = u \<or> (t = u\<lparr>status := Canceled\<rparr> \<and> status u \<noteq> Completed \<and> status u \<noteq> Canceled)"
      unfolding W by (blast dest: handleAll_db)
    from u(1) have "u = newRecord env j" by (simp add: create_db [OF assms(1)])
    with u(2) show ?thesis by (auto simp: newRecord_def)
  qed
  moreover have "sched 0 = [] \<longrightarrow> db W (newId env) = Some (newRecord env j)"
    by (simp add: W handleAll_def create_db [OF assms(1)])
  ultimately show ?thesis using r by blast
qed

theorem failure_not_recorded_witness:
  "\<forall>base.
     validateNew (sampleEnv base) (sampleJob ''txt'' ''deepl'') = None \<and>
     mkdir (sampleEnv base) (workDir (sampleEnv base) (newId (sampleEnv base))) = Resolved () \<and>
     fst (processTranslation (sampleEnv base) (\<lambda>i. []) (sampleJob ''txt'' ''deepl'') emptyWorld)
       = Rejected (Error ''Failed to extract text: this.extractFromTXT is not a function'') \<and>
     map_option (\<lambda>t. (status t, errorMessage t))
       (db (snd (processTranslation (sampleEnv base) (\<lambda>i. []) (sampleJob ''txt'' ''deepl'')
                   emptyWorld)) sampleId)
       = Some (Processing, None) \<and>
     map (\<lambda>(k, t). (k, status t, errorMessage t))
       (writes (snd (processTranslation (sampleEnv base) (\<lambda>i. []) (sampleJob ''txt'' ''deepl'')
                   emptyWorld)))
       = [(sampleId, Processing, None)]"
proof (intro allI)
  fix base
  let ?P = "processTranslation (sampleEnv base) (\<lambda>i. []) (sampleJob ''txt'' ''deepl'') emptyWorld"
  have h: "validateNew (sampleEnv base) (sampleJob ''txt'' ''deepl'') = None"
    "mkdir (sampleEnv base) (workDir (sampleEnv base) (newId (sampleEnv base))) = Resolved ()"
    by (simp_all add: sample_validateNew services_def sample_facts)
  have e: "toLowerCase ''txt'' = ''txt''" by code_simp
  from failure_not_recorded [OF h, of "\<lambda>i. []" emptyWorld "fst ?P" "snd ?P"]
  have "fst ?P = Rejected (extractTextError ''txt'')"
    and "db (snd ?P) sampleId = Some (newRecord (sampleEnv base) (sampleJob ''txt'' ''deepl''))"
    by (simp_all add: sample_facts)
  moreover have "writes (snd ?P) = [(sampleId, newRecord (sampleEnv base) (sampleJob ''txt'' ''deepl''))]"
    by (simp add: sample_run handleAll_def)
  ultimately show
    "validateNew (sampleEnv base) (sampleJob ''txt'' ''deepl'') = None \<and>
     mkdir (sampleEnv base) (workDir (sampleEnv base) (newId (sampleEnv base))) = Resolved () \<and>
     fst ?P = Rejected (Error ''Failed to extract text: this.extractFromTXT is not a function'') \<and>
     map_option (\<lambda>t. (status t, errorMessage t)) (db (snd ?P) sampleId) = Some (Processing, None) \<and>
     map (\<lambda>(k, t). (k, status t, errorMessage t)) (writes (snd ?P)) = [(sampleId, Processing, None)]"
    using h by (simp add: extractTextError_def e newRecord_def)
qed

section \<open>Properties of the job queue\<close>

text \<open>
  While the runs throw errors of a retryable class and attempts remain, the queue waits
  and runs the job again.
\<close>

lemma runJob_retry:
  assumes "\<forall>i<k. \<exists>e. run (a + i) = Rejected e \<and> \<not> permanent (classify e)"
      and "a + k < attempts opts"
  shows "runJob opts classify run a ws =
           runJob opts classify run (a + k) (ws @ map (Pair (backoff opts)) [a + 1..<a + k + 1])"
  using assms
proof (induction k arbitrary: a ws)
  case 0
  then show ?case by simp
next
  case (Suc k)
  from Suc.prems(1) obtain e where e: "run a = Rejected e" "\<not> permanent (classify e)"
    by force
  from Suc.prems(2) have lt: "a + 1 < attempts opts" by simp
  have first: "runJob opts classify run a ws =
                 runJob opts classify run (a + 1) (ws @ [(backoff opts, a + 1)])"
    using lt by (subst runJob.simps) (simp add: e)
  have "\<forall>i<k. \<exists>e. run (a + 1 + i) = Rejected e \<and> \<not> permanent (classify e)"
  proof (intro allI impI)
    fix i assume "i < k"
    then have "Suc i < Suc k" by simp
    with Suc.prems(1) have "\<exists>e. run (a + Suc i) = Rejected e \<and> \<not> permanent (classify e)"
      by blast
    then show "\<exists>e. run (a + 1 + i) = Rejected e \<and> \<not> permanent (classify e)" by simp
  qed
  moreover from Suc.prems(2) have "a + 1 + k < attempts opts" by simp
  ultimately have "runJob opts classify run (a + 1) (ws @ [(backoff opts, a + 1)]) =
      runJob opts classify run (a + 1 + k)
        ((ws @ [(backoff opts, a + 1)]) @ map (Pair (backoff opts)) [a + 1 + 1..<a + 1 + k + 1])"
    by (rule Suc.IH)
  moreover have "[a + 1..<a + Suc k + 1] = (a + 1) # [a + 1 + 1..<a + 1 + k + 1]"
    by (simp add: upt_conv_Cons)
  ultimately show ?case using first by simp
qed



section \<open>Properties of the language codes\<close>

lemma truthy_values:
  "\<forall>(k, v) \<in> set microsoftMap. v \<noteq> []" "\<forall>(k, v) \<in> set deeplMap. v \<noteq> []"
  "\<forall>(k, v) \<in> set amazonMap. v \<noteq> []" "\<forall>(k, v) \<in> set argosMap. v \<noteq> []"
  "\<forall>(k, v) \<in> set libreMap. v \<noteq> []"
  by (simp_all add: microsoftMap_def deeplMap_def amazonMap_def argosMap_def libreMap_def)

lemma getProperty_Some:
  "\<forall>(k, v) \<in> set tbl. v \<noteq> [] \<Longrightarrow> map_of tbl key = Some v \<Longrightarrow>
   orElse (getProperty tbl key) d = JString v"
  by (auto simp: getProperty_def orElse_def dest: map_of_SomeD)

lemma getProperty_None:
  "map_of tbl key = None \<Longrightarrow> key \<notin> set objectPrototypeNames \<Longrightarrow>
   orElse (getProperty tbl key) d = d"
  by (simp add: getProperty_def orElse_def)

text \<open>
  Claim C8, as amended. For a code such that neither the code, nor the code in lower case,
  nor its base code (the part before the first hyphen, in lower case) is the name of a
  member of \<open>Object.prototype\<close>: the adapters for Microsoft and Argos return the table's
  entry for a key and any other code unchanged; the adapter for DeepL returns the entry for
  a key and any other code in upper case; the adapter for Amazon looks up the code in lower
  case, so for a code that is a key in lower case or no key at all it returns the entry of
  the lower-case code, or else that lower-case code; the adapter for LibreTranslate returns
  the entry of the code, or else the entry of its base code, or else the base code.
\<close>

theorem mapLanguageCode_tables:
  assumes "code \<notin> set objectPrototypeNames"
      and "toLowerCase code \<notin> set objectPrototypeNames"
      and "baseCode code \<notin> set objectPrototypeNames"
  shows "(case map_of microsoftMap code of
            None \<Rightarrow> microsoft_mapLanguageCode code = JString code
          | Some v \<Rightarrow> microsoft_mapLanguageCode code = JString v) \<and>
         (case map_of argosMap code of
            None \<Rightarrow> argos_mapLanguageCode code = JString code
          | Some v \<Rightarrow> argos_mapLanguageCode code = JString v) \<and>
         (case map_of deeplMap code of
            None \<Rightarrow> deepl_mapLanguageCode code = WString (toUpperCase code)
          | Some v \<Rightarrow> deepl_mapLanguageCode code = WString (codePoints v)) \<and>
         (map_of amazonMap code = None \<or> toLowerCase code = code \<longrightarrow>
            (case map_of amazonMap (toLowerCase code) of
               None \<Rightarrow> amazon_mapLanguageCode code = JString (toLowerCase code)
             | Some v \<Rightarrow> amazon_mapLanguageCode code = JString v)) \<and>
         (case map_of libreMap code of
            Some v \<Rightarrow> libre_mapLanguageCode code = JString v
          | None \<Rightarrow>
              (case map_of libreMap (baseCode code) of
                 Some v \<Rightarrow> libre_mapLanguageCode code = JString v
               | None \<Rightarrow> libre_mapLanguageCode code = JString (baseCode code)))"
proof -
  have "deepl_mapLanguageCode code = WString (codePoints v)" if "map_of deeplMap code = Some v" for v
  proof -
    from that truthy_values(2) have "v \<noteq> []" by (auto dest: map_of_SomeD)
    with that show ?thesis by (simp add: deepl_mapLanguageCode_def getProperty_def)
  qed
  moreover have "deepl_mapLanguageCode code = WString (toUpperCase code)"
    if "map_of deeplMap code = None"
    using that assms(1) by (simp add: deepl_mapLanguageCode_def getProperty_def)
  ultimately show ?thesis
    using assms
    by (auto simp: microsoft_mapLanguageCode_def argos_mapLanguageCode_def
          amazon_mapLanguageCode_def libre_mapLanguageCode_def
          getProperty_Some [OF truthy_values(1)]
          getProperty_Some [OF truthy_values(3)] getProperty_Some [OF truthy_values(4)]
          getProperty_Some [OF truthy_values(5)] getProperty_None
        split: option.splits)
qed

text \<open>
  The keys \<open>zh-CN\<close> and \<open>zh-TW\<close> of Amazon's table are never found, since the code is
  looked up in lower case, and a code whose lower-case form names a member of
  \<open>Object.prototype\<close> reads that member.
\<close>

lemma amazon_zh_CN: "amazon_mapLanguageCode ''zh-CN'' = JString ''zh-cn''"
  by code_simp

lemma amazon_Constructor: "amazon_mapLanguageCode ''Constructor'' = JInherited ''constructor''"
  by code_simp

text \<open>
  Claim C8 as stated fails for the adapter of LibreTranslate: \<open>en-US\<close> is no key of its
  table, and the result \<open>en\<close> is not \<open>en-US\<close> in another case.
\<close>

theorem libre_truncates_unmapped_code:
  "map_of libreMap ''en-US'' = None \<and>
   libre_mapLanguageCode ''en-US'' = JString ''en'' \<and>
   toLowerCase ''en-US'' = ''en-us'' \<and> toUpperCase ''en-US'' = codePoints ''EN-US''"
  by code_simp

theorem mapLanguageCode_tables_witness:
  "''sr'' \<notin> set objectPrototypeNames \<and>
   toLowerCase ''sr'' \<notin> set objectPrototypeNames \<and>
   baseCode ''sr'' \<notin> set objectPrototypeNames \<and>
   microsoft_mapLanguageCode ''sr'' = JString ''sr-Cyrl'' \<and>
   argos_mapLanguageCode ''sr'' = JString ''sr'' \<and>
   deepl_mapLanguageCode ''sr'' = WString (codePoints ''SR'') \<and>
   amazon_mapLanguageCode ''sr'' = JString ''sr'' \<and>
   libre_mapLanguageCode ''sr'' = JString ''sr''"
proof -
  have c: "toLowerCase ''sr'' = ''sr''" "toUpperCase ''sr'' = codePoints ''SR''"
    "baseCode ''sr'' = ''sr''"
    by code_simp+
  have h: "''sr'' \<notin> set objectPrototypeNames" by code_simp
  have m: "map_of microsoftMap ''sr'' = Some ''sr-Cyrl''" "map_of argosMap ''sr'' = None"
    "map_of deeplMap ''sr'' = None" "map_of amazonMap ''sr'' = None"
    "map_of libreMap ''sr'' = None"
    by code_simp+
  from mapLanguageCode_tables [of "''sr''"] h show ?thesis
    by (simp add: m c)
qed

section \<open>Properties of the offline provider\<close>


lemma provisionCalls_append [simp]:
  "provisionCalls (xs @ ys) = provisionCalls xs + provisionCalls ys"
  by (simp add: provisionCalls_def)

lemma translationRuns_append [simp]:
  "translationRuns (xs @ ys) = translationRuns xs + translationRuns ys"
  by (simp add: translationRuns_def)

lemma isInstalled_log:
  "snd (isInstalled env lg) = lg @ [Exec Which]"
  by (simp add: isInstalled_def catch_def andThen_def exec_def ret_def split: outcome.splits)

lemma isLanguagePairAvailable_counts:
  "provisionCalls (snd (isLanguagePairAvailable env s t lg)) = provisionCalls lg \<and>
   translationRuns (snd (isLanguagePairAvailable env s t lg)) = translationRuns lg"
  by (cases "isInstalled env lg")
     (use isInstalled_log [of env lg] in
      \<open>auto simp: isLanguagePairAvailable_def catch_def andThen_def exec_def ret_def throw_def
         provisionCalls_def translationRuns_def split: outcome.splits\<close>)

lemma downloadLanguagePair_counts:
  "provisionCalls (snd (downloadLanguagePair env s t lg)) = provisionCalls lg + 1 \<and>
   translationRuns (snd (downloadLanguagePair env s t lg)) = translationRuns lg"
  by (cases "isInstalled env (lg @ [Provision s t])")
     (use isInstalled_log [of env "lg @ [Provision s t]"] in
      \<open>auto simp: downloadLanguagePair_def catch_def andThen_def exec_def ret_def throw_def
         provisionCalls_def translationRuns_def split: outcome.splits option.splits\<close>)

lemma catch_throws_log:
  assumes "\<And>e l. snd (h e l) = l"
  shows "snd (catch m h lg) = snd (m lg)"
  using assms by (cases "m lg") (auto simp: catch_def split: outcome.splits)

lemma catch_resolved:
  assumes "\<And>e l. \<exists>e'. fst (h e l) = Rejected e'"
  shows "fst (catch m h lg) = Resolved x \<longleftrightarrow> fst (m lg) = Resolved x"
proof (cases "m lg")
  case (Pair r l)
  show ?thesis
  proof (cases r)
    case (Rejected e)
    obtain e' where "fst (h e l) = Rejected e'" using assms [of e l] by blast
    then show ?thesis using Pair Rejected by (simp add: catch_def)
  qed (use Pair in \<open>simp_all add: catch_def\<close>)
qed

text \<open>
  Claim C9, as amended. When the pair is not available, one call of the adapter calls
  \<open>downloadLanguagePair\<close> exactly once and runs the translation command at most once: it
  runs it exactly when the download resolved and the input file was written, and it
  resolves only after running it. Nothing is tried a second time.
\<close>

theorem argos_provisions_once:
  assumes unavailable:
    "fst (isLanguagePairAvailable env (display (argos_mapLanguageCode src))
            (display (argos_mapLanguageCode tgt)) []) = Resolved False"
  shows "provisionCalls (snd (argos_translate env tx src tgt [])) = 1 \<and>
         translationRuns (snd (argos_translate env tx src tgt [])) \<le> 1 \<and>
         (translationRuns (snd (argos_translate env tx src tgt [])) = 1 \<longleftrightarrow>
            (\<exists>lg. downloadLanguagePair env (display (argos_mapLanguageCode src))
                    (display (argos_mapLanguageCode tgt))
                    (snd (isLanguagePairAvailable env (display (argos_mapLanguageCode src))
                            (display (argos_mapLanguageCode tgt)) [])) = (Resolved (), lg) \<and>
                  fsWriteFile env (length lg) (tempInputPath env) tx = Resolved ())) \<and>
         ((\<exists>x. fst (argos_translate env tx src tgt []) = Resolved x) \<longrightarrow>
            translationRuns (snd (argos_translate env tx src tgt [])) = 1)"
proof -
  let ?s = "display (argos_mapLanguageCode src)"
  let ?t = "display (argos_mapLanguageCode tgt)"
  let ?body = "andThen (isLanguagePairAvailable env ?s ?t) (\<lambda>isPairAvailable.
        andThen
          (if \<not> isPairAvailable then downloadLanguagePair env ?s ?t else ret ()) (\<lambda>u.
        andThen (writeTemp env (tempInputPath env) tx) (\<lambda>u.
        andThen
          (exec env (TranslateCommand ?s ?t (tempInputPath env) (tempOutputPath env))) (\<lambda>out.
        andThen (readTemp env (tempOutputPath env)) (\<lambda>translatedText.
        andThen (unlinkBoth env (tempInputPath env) (tempOutputPath env)) (\<lambda>u.
        ret translatedText))))))"
  obtain l1 where a: "isLanguagePairAvailable env ?s ?t [] = (Resolved False, l1)"
    using unavailable by (cases "isLanguagePairAvailable env ?s ?t []") auto
  obtain r2 l2 where d: "downloadLanguagePair env ?s ?t l1 = (r2, l2)"
    by (cases "downloadLanguagePair env ?s ?t l1")
  have c1: "provisionCalls l1 = 0" "translationRuns l1 = 0"
    using isLanguagePairAvailable_counts [of env ?s ?t "[]"] a
    by (simp_all add: provisionCalls_def translationRuns_def)
  have c2: "provisionCalls l2 = 1" "translationRuns l2 = 0"
    using downloadLanguagePair_counts [of env ?s ?t l1] d c1 by simp_all
  have lg: "snd (argos_translate env tx src tgt []) = snd (?body [])"
    unfolding argos_translate_def by (rule catch_throws_log) (simp add: throw_def)
  have res: "fst (argos_translate env tx src tgt []) = Resolved x \<longleftrightarrow> fst (?body []) = Resolved x"
    for x
    unfolding argos_translate_def by (rule catch_resolved) (simp add: throw_def)
  show ?thesis
  proof (cases r2)
    case (Rejected e)
    then have "?body [] = (Rejected e, l2)"
      by (simp add: andThen_def a d)
    then show ?thesis
      using c2 Rejected d a by (simp add: lg res)
  next
    case Pending
    then have "?body [] = (Pending, l2)"
      by (simp add: andThen_def a d)
    then show ?thesis
      using c2 Pending d a by (simp add: lg res)
  next
    case (Resolved u)
    show ?thesis
    proof (cases "fsWriteFile env (length l2) (tempInputPath env) tx")
      case wr: (Resolved u')
      have "provisionCalls (snd (?body [])) = 1 \<and> translationRuns (snd (?body [])) = 1"
        using c2 Resolved wr
        by (simp add: andThen_def a d writeTemp_def exec_def readTemp_def unlinkBoth_def ret_def
              provisionCalls_def translationRuns_def split: outcome.splits)
      then show ?thesis
        using Resolved d a wr by (simp add: lg res)
    next
      case (Rejected e)
      then have "?body [] = (Rejected e, l2 @ [WriteFile (tempInputPath env)])"
        using Resolved by (simp add: andThen_def a d writeTemp_def)
      then show ?thesis
        using c2 Rejected Resolved d a
        by (simp add: lg res provisionCalls_def translationRuns_def)
    next
      case Pending
      then have "?body [] = (Pending, l2 @ [WriteFile (tempInputPath env)])"
        using Resolved by (simp add: andThen_def a d writeTemp_def)
      then show ?thesis
        using c2 Pending Resolved d a
        by (simp add: lg res provisionCalls_def translationRuns_def)
    qed
  qed
qed

theorem argos_provisions_once_witness:
  "fst (isLanguagePairAvailable (argosSample (Some ''translate-en_xx''))
          (display (argos_mapLanguageCode ''en'')) (display (argos_mapLanguageCode ''xx'')) [])
     = Resolved False \<and>
   provisionCalls
     (snd (argos_translate (argosSample (Some ''translate-en_xx'')) ''Hi.'' ''en'' ''xx'' [])) = 1 \<and>
   translationRuns
     (snd (argos_translate (argosSample (Some ''translate-en_xx'')) ''Hi.'' ''en'' ''xx'' [])) = 1 \<and>
   fst (argos_translate (argosSample (Some ''translate-en_xx'')) ''Hi.'' ''en'' ''xx'' [])
     = Resolved ''Hola.''"
proof -
  have h: "fst (isLanguagePairAvailable (argosSample (Some ''translate-en_xx''))
            (display (argos_mapLanguageCode ''en'')) (display (argos_mapLanguageCode ''xx'')) [])
         = Resolved False"
    by code_simp
  have r: "fst (argos_translate (argosSample (Some ''translate-en_xx'')) ''Hi.'' ''en'' ''xx'' [])
         = Resolved ''Hola.''"
    by code_simp
  from argos_provisions_once [OF h, of "''Hi.''"] show ?thesis
    using h r by simp
qed

text \<open>
  Claim C9 as stated fails when the download fails: the adapter has tried to provision the
  pair once, and never runs the translation.
\<close>

theorem provisioning_failure_skips_translation:
  "fst (isLanguagePairAvailable (argosSample None) (display (argos_mapLanguageCode ''en''))
          (display (argos_mapLanguageCode ''xx'')) []) = Resolved False \<and>
   provisionCalls (snd (argos_translate (argosSample None) ''Hi.'' ''en'' ''xx'' [])) = 1 \<and>
   translationRuns (snd (argos_translate (argosSample None) ''Hi.'' ''en'' ''xx'' [])) = 0 \<and>
   fst (argos_translate (argosSample None) ''Hi.'' ''en'' ''xx'' [])
     = Rejected (Error ''Argos Translate failed: Failed to download language pair: No package available for en -> xx'')"
  by code_simp

section \<open>What the chunker leaves out\<close>


lemma space_isSpace: "isSpace CHR '' ''"
  by (simp add: isSpace_def)

lemma splitWs_content:
  "filter (\<lambda>c. \<not> isSpace c) (concat (splitWs s)) = filter (\<lambda>c. \<not> isSpace c) s"
proof (induction s rule: splitWs.induct)
  case (1 s)
  let ?d = "dropWhile (\<lambda>x. \<not> isSpace x) s"
  show ?case
  proof (cases "?d = []")
    case True
    then show ?thesis by (simp add: splitWs_no_space)
  next
    case False
    have sp: "filter (\<lambda>c. \<not> isSpace c) (takeWhile isSpace ?d) = []"
      by (simp add: filter_empty_conv) (meson set_takeWhileD)
    have f2: "filter (\<lambda>c. \<not> isSpace c) ?d = filter (\<lambda>c. \<not> isSpace c) (dropWhile isSpace ?d)"
    proof -
      have "filter (\<lambda>c. \<not> isSpace c) ?d
              = filter (\<lambda>c. \<not> isSpace c) (takeWhile isSpace ?d @ dropWhile isSpace ?d)"
        by simp
      also have "\<dots> = filter (\<lambda>c. \<not> isSpace c) (takeWhile isSpace ?d)
                       @ filter (\<lambda>c. \<not> isSpace c) (dropWhile isSpace ?d)"
        by (rule filter_append)
      finally show ?thesis by (simp only: sp append_Nil)
    qed
    have "filter (\<lambda>c. \<not> isSpace c) s
            = filter (\<lambda>c. \<not> isSpace c) (takeWhile (\<lambda>x. \<not> isSpace x) s @ ?d)"
      by simp
    also have "\<dots> = filter (\<lambda>c. \<not> isSpace c) (takeWhile (\<lambda>x. \<not> isSpace x) s)
                     @ filter (\<lambda>c. \<not> isSpace c) ?d"
      by (rule filter_append)
    also have "\<dots> = filter (\<lambda>c. \<not> isSpace c) (takeWhile (\<lambda>x. \<not> isSpace x) s)
                     @ filter (\<lambda>c. \<not> isSpace c) (dropWhile isSpace ?d)"
      by (simp only: f2)
    finally show ?thesis
      using "1.IH" [OF False] by (simp add: splitWs_space [OF False])
  qed
qed

lemma wordLoop_content:
  "filter (\<lambda>c. \<not> isSpace c)
     (concat (fst (wordLoop L ws chunks cur)) @ snd (wordLoop L ws chunks cur))
   = filter (\<lambda>c. \<not> isSpace c) (concat chunks @ cur @ concat ws)"
proof (induction ws arbitrary: chunks cur)
  case Nil
  then show ?case by simp
next
  case (Cons w ws)
  show ?case
  proof (cases "length (cur @ '' '' @ w) \<le> L")
    case True
    then have "wordLoop L (w # ws) chunks cur
                 = wordLoop L ws chunks (cur @ (if cur \<noteq> [] then '' '' else []) @ w)"
      by simp
    then show ?thesis
      using Cons.IH [of chunks "cur @ (if cur \<noteq> [] then '' '' else []) @ w"]
      by (simp add: space_isSpace)
  next
    case False
    then have "wordLoop L (w # ws) chunks cur
                 = wordLoop L ws (if cur \<noteq> [] then chunks @ [cur] else chunks) w"
      by simp
    then show ?thesis
      using Cons.IH [of "if cur \<noteq> [] then chunks @ [cur] else chunks" w]
      by simp
  qed
qed

lemma splitLongSentence_content:
  "filter (\<lambda>c. \<not> isSpace c) (concat (splitLongSentence s L)) = filter (\<lambda>c. \<not> isSpace c) s"
proof -
  obtain chunks cur where w: "wordLoop L (splitWs s) [] [] = (chunks, cur)"
    by (cases "wordLoop L (splitWs s) [] []")
  have "concat (splitLongSentence s L) = concat chunks @ cur"
    by (simp add: splitLongSentence_def w)
  then show ?thesis
    using wordLoop_content [of L "splitWs s" "[]" "[]"] w by (simp add: splitWs_content)
qed

lemma sentenceLoop_content:
  assumes "\<forall>s \<in> set ss. s \<noteq> [] \<and> \<not> isSpace (last s)"
  shows "filter (\<lambda>c. \<not> isSpace c)
           (concat (pushCurrent (fst (sentenceLoop L ss chunks (Some cur)))
                      (snd (sentenceLoop L ss chunks (Some cur)))))
         = filter (\<lambda>c. \<not> isSpace c) (concat chunks @ cur @ concat ss)"
  using assms
proof (induction ss arbitrary: chunks cur)
  case Nil
  then show ?case by (simp add: pushCurrent_def)
next
  case (Cons s ss)
  have tl: "\<forall>s \<in> set ss. s \<noteq> [] \<and> \<not> isSpace (last s)"
    using Cons.prems by simp
  have pc: "concat (pushCurrent chunks (Some cur)) = concat chunks @ cur"
    by (simp add: pushCurrent_def)
  show ?case
  proof (cases "length (jsConcat (Some cur) s) \<le> L")
    case True
    then show ?thesis
      using Cons.IH [OF tl, of chunks "cur @ s"] by (simp add: jsConcat_def)
  next
    case False
    show ?thesis
    proof (cases "length s > L")
      case long: True
      let ?sc = "splitLongSentence s L"
      have ne: "?sc \<noteq> []"
        using Cons.prems by (simp add: splitLongSentence_nonempty)
      then have le: "lastElement ?sc = Some (last ?sc)"
        by (simp add: lastElement_def)
      have "concat (butlast ?sc) @ last ?sc = concat (butlast ?sc @ [last ?sc])"
        by simp
      also have "\<dots> = concat ?sc"
        using append_butlast_last_id [OF ne] by (rule arg_cong)
      finally have sc: "filter (\<lambda>c. \<not> isSpace c) (concat (butlast ?sc) @ last ?sc)
                          = filter (\<lambda>c. \<not> isSpace c) s"
        by (simp only: splitLongSentence_content)
      have step: "sentenceLoop L (s # ss) chunks (Some cur)
                    = sentenceLoop L ss (pushCurrent chunks (Some cur) @ butlast ?sc)
                        (Some (last ?sc))"
        using False long le by simp
      have "filter (\<lambda>c. \<not> isSpace c)
              (concat (pushCurrent chunks (Some cur) @ butlast ?sc) @ last ?sc @ concat ss)
            = filter (\<lambda>c. \<not> isSpace c) (concat chunks @ cur)
              @ filter (\<lambda>c. \<not> isSpace c) (concat (butlast ?sc) @ last ?sc)
              @ filter (\<lambda>c. \<not> isSpace c) (concat ss)"
        by (simp add: pc)
      also have "\<dots> = filter (\<lambda>c. \<not> isSpace c) (concat chunks @ cur @ concat (s # ss))"
        by (simp only: sc) simp
      finally show ?thesis
        unfolding step
        using Cons.IH [OF tl, of "pushCurrent chunks (Some cur) @ butlast ?sc" "last ?sc"]
        by simp
    next
      case short: False
      have step: "sentenceLoop L (s # ss) chunks (Some cur)
                    = sentenceLoop L ss (pushCurrent chunks (Some cur)) (Some s)"
        using False short by simp
      show ?thesis
        unfolding step
        using Cons.IH [OF tl, of "pushCurrent chunks (Some cur)" s]
        by (simp add: pc)
    qed
  qed
qed

text \<open>
  What the chunks keep: white space aside, their concatenation is the concatenation of the
  sentence spans, for every limit.
\<close>

lemma splitIntoChunks_content:
  "filter (\<lambda>c. \<not> isSpace c) (concat (splitIntoChunks t L))
   = filter (\<lambda>c. \<not> isSpace c) (concat (matchSentences t))"
proof -
  have "\<forall>s \<in> set (matchSentences t). s \<noteq> [] \<and> \<not> isSpace (last s)"
    using matchSentences_sentence terminal_not_space by blast
  from sentenceLoop_content [OF this, of L "[]" "[]"] show ?thesis
    by (cases "sentenceLoop L (matchSentences t) [] (Some [])")
       (simp add: splitIntoChunks_def)
qed

text \<open>
  What the sentence spans leave out: terminal characters at the start of the text, and the
  text after the last terminal character.
\<close>

lemma matchSentences_covers:
  "\<exists>front rear. t = front @ concat (matchSentences t) @ rear \<and>
     (\<forall>c \<in> set front. isTerminal c) \<and> (\<forall>c \<in> set rear. \<not> isTerminal c)"
proof (induction t rule: matchSentences.induct)
  case 1
  show ?case by simp
next
  case (2 c cs)
  let ?d = "dropWhile (\<lambda>x. \<not> isTerminal x) (c # cs)"
  let ?b = "takeWhile (\<lambda>x. \<not> isTerminal x) (c # cs)"
  let ?m = "takeWhile isTerminal ?d"
  let ?r = "dropWhile isTerminal ?d"
  show ?case
  proof (cases "isTerminal c")
    case True
    with 2 obtain front rear where
      "cs = front @ concat (matchSentences cs) @ rear"
      "\<forall>c \<in> set front. isTerminal c" "\<forall>c \<in> set rear. \<not> isTerminal c"
      by blast
    then have "c # cs = (c # front) @ concat (matchSentences (c # cs)) @ rear \<and>
               (\<forall>x \<in> set (c # front). isTerminal x) \<and> (\<forall>c \<in> set rear. \<not> isTerminal c)"
      using True by (simp add: matchSentences.simps(2))
    then show ?thesis by blast
  next
    case nt: False
    have u: "matchSentences (c # cs) =
               (if ?m = [] then [] else (?b @ ?m) # matchSentences ?r)"
      using nt by (simp add: matchSentences_unfold [of "c # cs"] del: takeWhile.simps dropWhile.simps)
    show ?thesis
    proof (cases "?m = []")
      case True
      have "?d = []"
      proof (rule ccontr)
        assume "?d \<noteq> []"
        then have "isTerminal (hd ?d)"
          using hd_dropWhile [of "\<lambda>x. \<not> isTerminal x" "c # cs"] by simp
        then have "?m \<noteq> []" using \<open>?d \<noteq> []\<close> by (cases ?d) auto
        with True show False by simp
      qed
      then have "\<forall>x \<in> set (c # cs). \<not> isTerminal x"
        by (simp only: dropWhile_eq_Nil_conv)
      moreover have "matchSentences (c # cs) = []"
        unfolding u using True by simp
      ultimately have "c # cs = [] @ concat (matchSentences (c # cs)) @ (c # cs) \<and>
               (\<forall>x \<in> set []. isTerminal x) \<and> (\<forall>x \<in> set (c # cs). \<not> isTerminal x)"
        by simp
      then show ?thesis by blast
    next
      case False
      from "2.IH"(2) [OF nt False] obtain front rear where
        fb: "?r = front @ concat (matchSentences ?r) @ rear"
        "\<forall>c \<in> set front. isTerminal c" "\<forall>c \<in> set rear. \<not> isTerminal c"
        by blast
      have gen: "r = front @ X \<Longrightarrow> front \<noteq> [] \<Longrightarrow> r \<noteq> [] \<and> hd r \<in> set front"
        for r X :: string
        by (cases front) auto
      have "front = []"
      proof (rule ccontr)
        assume "front \<noteq> []"
        from gen [OF fb(1) this] have r: "?r \<noteq> []" "hd ?r \<in> set front"
          by blast+
        from r(2) fb(2) have "isTerminal (hd ?r)" by blast
        moreover have "\<not> isTerminal (hd ?r)"
          using r(1) by (rule hd_dropWhile)
        ultimately show False by blast
      qed
      have rest: "?r = concat (matchSentences ?r) @ rear"
        using fb(1) unfolding \<open>front = []\<close> append_Nil .
      have m: "matchSentences (c # cs) = (?b @ ?m) # matchSentences ?r"
        unfolding u using False by simp
      have "c # cs = ?b @ ?d" by (simp only: takeWhile_dropWhile_id)
      also have "\<dots> = ?b @ ?m @ ?r" by (simp only: takeWhile_dropWhile_id)
      also have "\<dots> = ?b @ ?m @ concat (matchSentences ?r) @ rear"
        using arg_cong [OF rest, of "\<lambda>x. ?b @ ?m @ x"] .
      also have "\<dots> = [] @ concat (matchSentences (c # cs)) @ rear"
        unfolding m by simp
      finally have e: "c # cs = [] @ concat (matchSentences (c # cs)) @ rear" .
      have "\<forall>x \<in> set ([] :: string). isTerminal x" by simp
      with e fb(3) show ?thesis by blast
    qed
  qed
qed


text \<open>
  Claim C1, at three texts: the words after the last full stop, a text without a full stop,
  and terminal characters at the start of a text reach no chunk. The concatenation of the
  chunks of the first text, white space removed, is \<open>Chapterone.\<close>, and not the text with
  its white space removed.
\<close>

theorem splitIntoChunks_drops_text:
  "splitIntoChunks ''Chapter one. The end'' 1000 = [''Chapter one.''] \<and>
   splitIntoChunks ''No full stop here'' 1000 = [] \<and>
   splitIntoChunks ''...and so on. Yes?'' 1000 = [''and so on. Yes?''] \<and>
   filter (\<lambda>c. \<not> isSpace c) (concat (splitIntoChunks ''Chapter one. The end'' 1000))
     = ''Chapterone.'' \<and>
   filter (\<lambda>c. \<not> isSpace c) ''Chapter one. The end'' = ''Chapterone.Theend''"
  by code_simp

end

